theory Spec2Isabelle
  imports Main
begin

section \<open>The shell of mokey: configuration, logging, validation gate, dispatch\<close>

text \<open>
  A shallow embedding of \<^verbatim>\<open>main.go\<close>. The closures \<^verbatim>\<open>app.Before\<close>,
  \<^verbatim>\<open>app.After\<close>, the four command actions and the body of the SIGHUP goroutine
  are translated statement by statement. Everything they touch outside the file
  (viper's store, the logrus standard logger, the file system, the collaborators in
  packages \<^verbatim>\<open>server\<close> and \<^verbatim>\<open>tools\<close>) is a field of one explicit
  world that every function takes and returns.
\<close>

subsection \<open>Configuration store (viper)\<close>

text \<open>
  The store after \<^verbatim>\<open>ReadInConfig\<close>: keys to values. \<^verbatim>\<open>GetString\<close> of
  a key that is not set is the empty string; \<^verbatim>\<open>IsSet\<close> asks only whether the
  key has a value, not what the value is.
\<close>

type_synonym settings = "string \<rightharpoonup> string"

definition GetString :: "settings \<Rightarrow> string \<Rightarrow> string" where
  "GetString cfg k = (case cfg k of None \<Rightarrow> [] | Some v \<Rightarrow> v)"

definition IsSet :: "settings \<Rightarrow> string \<Rightarrow> bool" where
  "IsSet cfg k = (case cfg k of None \<Rightarrow> False | Some v \<Rightarrow> True)"

subsection \<open>The logrus standard logger\<close>

datatype level = PanicLevel | FatalLevel | ErrorLevel | WarnLevel | InfoLevel | DebugLevel

fun level_rank :: "level \<Rightarrow> nat" where
  "level_rank PanicLevel = 0"
| "level_rank FatalLevel = 1"
| "level_rank ErrorLevel = 2"
| "level_rank WarnLevel = 3"
| "level_rank InfoLevel = 4"
| "level_rank DebugLevel = 5"

text \<open>An open file is known by its descriptor number.\<close>

datatype writer = Stderr | Stdout | FileW nat

datatype hook = SyslogHook

datatype formatter = TextFormatter | JSONFormatter

record logger =
  Level :: level
  Out :: writer
  Hooks :: "hook list"
  Formatter :: formatter

text \<open>What a stream or a file holds: log entries, and the plain lines the
  command-line framework prints.\<close>

datatype line = Entry level string | Plain string

subsection \<open>Files\<close>

datatype oflag = O_WRONLY | O_CREATE | O_APPEND | O_TRUNC

record descriptor =
  fpath :: string
  fappend :: bool
  fpos :: nat

subsection \<open>Collaborators and the command line\<close>

text \<open>
  The packages \<^verbatim>\<open>server\<close> and \<^verbatim>\<open>tools\<close> are opaque: each function is
  given by the error it returns (\<open>None\<close> is Go's \<^verbatim>\<open>nil\<close>), and every invocation
  is recorded in the world.
\<close>

record collab =
  server_Run :: "string option"
  tools_SendResetPasswordEmail :: "string \<Rightarrow> string option"
  tools_SendVerifyEmail :: "string \<Rightarrow> string option"
  tools_Status :: "string \<Rightarrow> string option"

datatype call = RunServer | ResetPasswordEmail string | VerifyEmail string | StatusOf string

datatype command = Server | Resetpw | Verify_email | Status

text \<open>The parsed command line: the global flags \<^verbatim>\<open>--conf\<close> and \<^verbatim>\<open>--debug\<close>,
  the command, and its \<^verbatim>\<open>--uid\<close> flag when one was given. A command line that
  names none of the four commands only makes the framework print its help and is
  left out.\<close>

record invocation =
  conf :: "string option"
  debug :: bool
  cmd :: command
  uid :: "string option"

definition GlobalString_conf :: "invocation \<Rightarrow> string" where
  "GlobalString_conf c = (case conf c of None \<Rightarrow> [] | Some p \<Rightarrow> p)"

definition String_uid :: "invocation \<Rightarrow> string" where
  "String_uid c = (case uid c of None \<Rightarrow> [] | Some u \<Rightarrow> u)"

subsection \<open>The world\<close>

text \<open>
  \<open>conf_files\<close> is what \<^verbatim>\<open>ReadInConfig\<close> finds at a path (\<open>None\<close>: the
  default search path \<^verbatim>\<open>/etc/mokey/mokey.yaml\<close>): an error text or the parsed
  settings. \<open>unopenable\<close> are the paths on which the operating system refuses
  \<^verbatim>\<open>open\<close>, \<open>close_faulty\<close> those whose \<^verbatim>\<open>close\<close> reports an error,
  \<open>syslog_up\<close> whether the local syslog daemon accepts a connection.
  \<open>opens\<close> and \<open>calls\<close> record every path handed to \<^verbatim>\<open>os.OpenFile\<close> and
  every collaborator invocation, in order. \<open>logFile\<close> is the global variable of
  that name, \<open>watcher\<close> says whether the SIGHUP goroutine has been started.
\<close>

record world =
  conf_files :: "string option \<Rightarrow> string + settings"
  config_file :: "string option"
  config :: settings
  files :: "string \<rightharpoonup> line list"
  unopenable :: "string set"
  close_faulty :: "string set"
  syslog_up :: bool
  fdtab :: "nat \<rightharpoonup> descriptor"
  next_fd :: nat
  std :: logger
  stderr :: "line list"
  stdout :: "line list"
  syslog :: "line list"
  logFile :: "nat option"
  watcher :: bool
  opens :: "string list"
  calls :: "call list"

text \<open>How the process ends: \<^verbatim>\<open>os.Exit\<close> with a status, an unrecovered panic
  (the Go runtime then ends the whole process with status 2), or death by a signal
  nobody subscribed to.\<close>

datatype halt = Exit nat | Crash string | Killed

subsection \<open>Operating system calls\<close>

text \<open>
  \<^verbatim>\<open>os.OpenFile(path, flags, 0660)\<close>. The attempt is recorded. A path that does not
  name a file is created only under \<^verbatim>\<open>O_CREATE\<close>; an existing file keeps its
  content unless \<^verbatim>\<open>O_TRUNC\<close> is given. The result is the new descriptor,
  or \<open>None\<close> where Go returns a nil file and an error.
\<close>

definition new_descriptor :: "string \<Rightarrow> oflag list \<Rightarrow> line list \<Rightarrow> world \<Rightarrow> nat option \<times> world" where
  "new_descriptor p flags content w =
     (Some (next_fd w),
      w\<lparr>files := (files w)(p \<mapsto> content),
        fdtab := (fdtab w)(next_fd w \<mapsto> \<lparr>fpath = p, fappend = (O_APPEND \<in> set flags), fpos = 0\<rparr>),
        next_fd := Suc (next_fd w)\<rparr>)"

definition os_OpenFile :: "string \<Rightarrow> oflag list \<Rightarrow> world \<Rightarrow> nat option \<times> world" where
  "os_OpenFile p flags w =
     (let w1 = w\<lparr>opens := opens w @ [p]\<rparr> in
      if p \<in> unopenable w1 then (None, w1)
      else (case files w1 p of
              None \<Rightarrow> if O_CREATE \<in> set flags then new_descriptor p flags [] w1 else (None, w1)
            | Some xs \<Rightarrow> new_descriptor p flags (if O_TRUNC \<in> set flags then [] else xs) w1))"

text \<open>A write through a descriptor opened with \<^verbatim>\<open>O_APPEND\<close> lands at the end of
  the file, otherwise at the descriptor's own offset. It fails on a closed descriptor.\<close>

definition os_Write :: "nat \<Rightarrow> line \<Rightarrow> world \<Rightarrow> bool \<times> world" where
  "os_Write fd l w =
     (case fdtab w fd of
        None \<Rightarrow> (False, w)
      | Some d \<Rightarrow>
          (let xs = (case files w (fpath d) of None \<Rightarrow> [] | Some ys \<Rightarrow> ys);
               pos = (if fappend d then length xs else fpos d)
           in (True, w\<lparr>files := (files w)(fpath d \<mapsto> take pos xs @ [l] @ drop (Suc pos) xs),
                        fdtab := (fdtab w)(fd \<mapsto> d\<lparr>fpos := Suc pos\<rparr>)\<rparr>)))"

text \<open>\<^verbatim>\<open>(*os.File).Close\<close>: an error on a descriptor that is not open; otherwise the
  descriptor is released, and the operating system may still report an error.\<close>

definition os_Close :: "nat \<Rightarrow> world \<Rightarrow> string option \<times> world" where
  "os_Close fd w =
     (case fdtab w fd of
        None \<Rightarrow> (Some ''file already closed'', w)
      | Some d \<Rightarrow>
          ((if fpath d \<in> close_faulty w then Some ''input/output error'' else None),
           w\<lparr>fdtab := (fdtab w)(fd := None)\<rparr>))"

subsection \<open>Logging calls\<close>

definition SetLevel :: "level \<Rightarrow> world \<Rightarrow> world" where
  "SetLevel l w = w\<lparr>std := (std w)\<lparr>Level := l\<rparr>\<rparr>"

definition SetOutput :: "writer \<Rightarrow> world \<Rightarrow> world" where
  "SetOutput out w = w\<lparr>std := (std w)\<lparr>Out := out\<rparr>\<rparr>"

definition AddHook :: "hook \<Rightarrow> world \<Rightarrow> world" where
  "AddHook h w = w\<lparr>std := (std w)\<lparr>Hooks := Hooks (std w) @ [h]\<rparr>\<rparr>"

definition SetFormatter :: "formatter \<Rightarrow> world \<Rightarrow> world" where
  "SetFormatter f w = w\<lparr>std := (std w)\<lparr>Formatter := f\<rparr>\<rparr>"

definition fire :: "line \<Rightarrow> hook \<Rightarrow> world \<Rightarrow> world" where
  "fire l h w = (case h of SyslogHook \<Rightarrow> w\<lparr>syslog := syslog w @ [l]\<rparr>)"

text \<open>The entry goes to the logger's output; when the write fails logrus reports
  that on standard error and the entry is lost.\<close>

definition write_out :: "line \<Rightarrow> world \<Rightarrow> world" where
  "write_out l w =
     (case Out (std w) of
        Stderr \<Rightarrow> w\<lparr>stderr := stderr w @ [l]\<rparr>
      | Stdout \<Rightarrow> w\<lparr>stdout := stdout w @ [l]\<rparr>
      | FileW fd \<Rightarrow>
          (case os_Write fd l w of
             (True, w') \<Rightarrow> w'
           | (False, w') \<Rightarrow> w'\<lparr>stderr := stderr w' @ [Plain ''Failed to write to log'']\<rparr>))"

text \<open>An entry is logged when its level is enabled: the hooks fire first, then the
  entry is written to the output.\<close>

definition log_at :: "level \<Rightarrow> string \<Rightarrow> world \<Rightarrow> world" where
  "log_at l m w =
     (if level_rank l \<le> level_rank (Level (std w))
      then write_out (Entry l m) (fold (fire (Entry l m)) (Hooks (std w)) w)
      else w)"

definition log_Info :: "string \<Rightarrow> world \<Rightarrow> world" where
  "log_Info m w = log_at InfoLevel m w"

text \<open>\<^verbatim>\<open>log.Fatal\<close> logs at fatal level and then calls \<^verbatim>\<open>os.Exit(1)\<close>: it never
  returns to its caller.\<close>

definition log_Fatal :: "string \<Rightarrow> world \<Rightarrow> (halt + unit) \<times> world" where
  "log_Fatal m w = (Inl (Exit 1), log_at FatalLevel m w)"

subsection \<open>\<^verbatim>\<open>app.Before\<close>\<close>

definition SetConfigFile :: "string \<Rightarrow> world \<Rightarrow> world" where
  "SetConfigFile p w = w\<lparr>config_file := Some p\<rparr>"

definition ReadInConfig :: "world \<Rightarrow> string option \<times> world" where
  "ReadInConfig w =
     (case conf_files w (config_file w) of
        Inl e \<Rightarrow> (Some e, w)
      | Inr cfg \<Rightarrow> (None, w\<lparr>config := cfg\<rparr>))"

text \<open>Lines 52 to 67: the severity threshold.\<close>

definition select_level :: "invocation \<Rightarrow> world \<Rightarrow> world" where
  "select_level c w =
     (if debug c then SetLevel DebugLevel w
      else (let s = GetString (config w) ''log_level'' in
            if s = ''error'' then SetLevel ErrorLevel w
            else if s = ''warn'' then SetLevel WarnLevel w
            else if s = ''info'' then SetLevel InfoLevel w
            else if s = ''debug'' then SetLevel DebugLevel w
            else SetLevel WarnLevel w))"

definition log_flags :: "oflag list" where
  "log_flags = [O_CREATE, O_WRONLY, O_APPEND]"

text \<open>Lines 69 to 119: the output target. The result is the error returned from
  \<^verbatim>\<open>Before\<close> at this point, if any. In the file case the assignment to
  \<open>logFile\<close> happens whether or not the open succeeds, and the goroutine is
  started after a successful open.\<close>

definition select_target :: "world \<Rightarrow> string option \<times> world" where
  "select_target w =
     (let t = GetString (config w) ''log_target'' in
      if t = ''stderr'' then (None, SetOutput Stderr w)
      else if t = ''stdout'' then (None, SetOutput Stdout w)
      else if t = ''file'' then
        (if length (GetString (config w) ''log_file'') = 0
         then (Some ''Please specify a log file'', w)
         else (case os_OpenFile (GetString (config w) ''log_file'') log_flags w of
                 (Some fd, w') \<Rightarrow>
                   (None, (SetOutput (FileW fd) (w'\<lparr>logFile := Some fd\<rparr>))\<lparr>watcher := True\<rparr>)
               | (None, w') \<Rightarrow> (Some ''Failed to open log file'', w'\<lparr>logFile := None\<rparr>)))
      else if t = ''syslog'' then
        (if syslog_up w then (None, AddHook SyslogHook w)
         else (Some ''Failed to setup syslog output'', w))
      else (None, SetOutput Stderr w))"

text \<open>Lines 121 to 125: the record format.\<close>

definition select_format :: "world \<Rightarrow> world" where
  "select_format w =
     (if GetString (config w) ''log_format'' = ''json'' then SetFormatter JSONFormatter w else w)"

text \<open>Lines 129 to 131: the validation gate.\<close>

definition validation_gate :: "world \<Rightarrow> (halt + unit) \<times> world" where
  "validation_gate w =
     (if \<not> IsSet (config w) ''enc_key'' \<or> \<not> IsSet (config w) ''auth_key''
      then log_Fatal ''Please ensure authentication and encryption keys are set'' w
      else (Inr (), w))"

text \<open>The whole closure. \<open>Inl\<close>: the process ended inside it. \<open>Inr (Some e)\<close>: it
  returned the error \<open>e\<close>. \<open>Inr None\<close>: it returned \<^verbatim>\<open>nil\<close>.\<close>

definition Before :: "invocation \<Rightarrow> world \<Rightarrow> (halt + string option) \<times> world" where
  "Before c w =
     (let w1 = (if length (GlobalString_conf c) > 0
                then SetConfigFile (GlobalString_conf c) w else w)
      in case ReadInConfig w1 of
           (Some e, w2) \<Rightarrow> (Inr (Some (''Failed reading config file - '' @ e)), w2)
         | (None, w2) \<Rightarrow>
             (case select_target (select_level c w2) of
                (Some e, w3) \<Rightarrow> (Inr (Some e), w3)
              | (None, w3) \<Rightarrow>
                  (case validation_gate (select_format w3) of
                     (Inl h, w4) \<Rightarrow> (Inl h, w4)
                   | (Inr u, w4) \<Rightarrow> (Inr None, w4))))"

subsection \<open>The SIGHUP goroutine\<close>

text \<open>
  Lines 94 to 106, one turn of the loop: what the goroutine does with one signal
  taken from the channel. \<^verbatim>\<open>Close\<close> on a nil file returns an error, which is
  dropped like every other. The turn is taken as atomic with respect to the other
  log writers of the process.
\<close>

definition reload :: "world \<Rightarrow> (halt + unit) \<times> world" where
  "reload w =
     (let w1 = (case logFile w of None \<Rightarrow> w | Some fd \<Rightarrow> snd (os_Close fd w)) in
      case os_OpenFile (GetString (config w1) ''log_file'') log_flags w1 of
        (None, w2) \<Rightarrow> (Inl (Crash ''Failed to reload log file''), w2\<lparr>logFile := None\<rparr>)
      | (Some fd, w2) \<Rightarrow>
          (Inr (), log_Info ''Log file successfully reloaded''
                     (SetOutput (FileW fd) (w2\<lparr>logFile := Some fd\<rparr>))))"

subsection \<open>\<^verbatim>\<open>app.After\<close>\<close>

definition After :: "world \<Rightarrow> string option \<times> world" where
  "After w = (case logFile w of Some fd \<Rightarrow> os_Close fd w | None \<Rightarrow> (None, w))"

subsection \<open>The command actions\<close>

text \<open>An error value of Go: a plain error, an error that carries an exit code
  (\<^verbatim>\<open>cli.NewExitError\<close>), or the framework's pair of two errors.\<close>

datatype error = PlainError string | ExitError string nat | MultiError error error

fun error_text :: "error \<Rightarrow> string" where
  "error_text (PlainError m) = m"
| "error_text (ExitError m n) = m"
| "error_text (MultiError a b) = error_text a @ '' '' @ error_text b"

text \<open>Lines 145 to 153. The \<^verbatim>\<open>return\<close> that follows \<^verbatim>\<open>log.Fatal\<close> is kept as it
  is written; \<open>log_Fatal\<close> never takes the branch that reaches it.\<close>

definition server_Action :: "collab \<Rightarrow> invocation \<Rightarrow> world \<Rightarrow> (halt + error option) \<times> world" where
  "server_Action k c w =
     (let w1 = w\<lparr>calls := calls w @ [RunServer]\<rparr> in
      case server_Run k of
        Some e \<Rightarrow>
          (case log_Fatal e w1 of
             (Inl h, w2) \<Rightarrow> (Inl h, w2)
           | (Inr u, w2) \<Rightarrow> (Inr (Some (ExitError e 1)), w2))
      | None \<Rightarrow> (Inr None, w1))"

text \<open>Lines 161 to 173.\<close>

definition resetpw_Action :: "collab \<Rightarrow> invocation \<Rightarrow> world \<Rightarrow> (halt + error option) \<times> world" where
  "resetpw_Action k c w =
     (let u = String_uid c in
      if length u = 0 then (Inr (Some (ExitError ''Please provide a uid'' 1)), w)
      else (let w1 = w\<lparr>calls := calls w @ [ResetPasswordEmail u]\<rparr> in
            case tools_SendResetPasswordEmail k u of
              Some e \<Rightarrow> (Inr (Some (ExitError e 1)), w1)
            | None \<Rightarrow> (Inr None, w1)))"

text \<open>Lines 181 to 193.\<close>

definition verify_email_Action :: "collab \<Rightarrow> invocation \<Rightarrow> world \<Rightarrow> (halt + error option) \<times> world" where
  "verify_email_Action k c w =
     (let u = String_uid c in
      if length u = 0 then (Inr (Some (ExitError ''Please provide a uid'' 1)), w)
      else (let w1 = w\<lparr>calls := calls w @ [VerifyEmail u]\<rparr> in
            case tools_SendVerifyEmail k u of
              Some e \<Rightarrow> (Inr (Some (ExitError e 1)), w1)
            | None \<Rightarrow> (Inr None, w1)))"

text \<open>Lines 201 to 213.\<close>

definition status_Action :: "collab \<Rightarrow> invocation \<Rightarrow> world \<Rightarrow> (halt + error option) \<times> world" where
  "status_Action k c w =
     (let u = String_uid c in
      if length u = 0 then (Inr (Some (ExitError ''Please provide a uid'' 1)), w)
      else (let w1 = w\<lparr>calls := calls w @ [StatusOf u]\<rparr> in
            case tools_Status k u of
              Some e \<Rightarrow> (Inr (Some (ExitError e 1)), w1)
            | None \<Rightarrow> (Inr None, w1)))"

text \<open>\<^verbatim>\<open>app.Commands\<close>: the action registered under each command name.\<close>

fun Action :: "command \<Rightarrow> collab \<Rightarrow> invocation \<Rightarrow> world \<Rightarrow> (halt + error option) \<times> world" where
  "Action Server = server_Action"
| "Action Resetpw = resetpw_Action"
| "Action Verify_email = verify_email_Action"
| "Action Status = status_Action"

subsection \<open>The run of the process\<close>

text \<open>
  \<^verbatim>\<open>app.RunAndExitOnError()\<close> of the command-line framework (urfave/cli, version 1)
  as \<^verbatim>\<open>main\<close> relies on it. The framework calls \<^verbatim>\<open>Before\<close>; when that
  returns an error no command runs. Otherwise it calls the action of the selected
  command. An error that carries an exit code is printed and ends the process with
  that code at once (\<^verbatim>\<open>HandleExitCoder\<close>). \<^verbatim>\<open>After\<close> is deferred in
  \<^verbatim>\<open>Run\<close>, so it runs when \<^verbatim>\<open>Run\<close> returns, and its error is joined to the
  one \<^verbatim>\<open>Run\<close> already has. \<^verbatim>\<open>RunAndExitOnError\<close> prints a returned error and
  exits with status 1; \<^verbatim>\<open>main\<close> returning ends the process with status 0.
  The help text the framework prints is left out.

  The process is a machine with a program counter for the main goroutine. A
  \<open>Main\<close> event runs the next phase of the main goroutine, a \<open>Sighup\<close> event
  delivers one SIGHUP: the goroutine of \<^verbatim>\<open>Before\<close> takes it when it has been
  started, otherwise the signal ends the process.
\<close>

definition HandleExitCoder :: "error \<Rightarrow> world \<Rightarrow> (halt + unit) \<times> world" where
  "HandleExitCoder e w =
     (case e of
        ExitError m n \<Rightarrow> (Inl (Exit n), (if m \<noteq> [] then w\<lparr>stderr := stderr w @ [Plain m]\<rparr> else w))
      | PlainError m \<Rightarrow> (Inr (), w)
      | MultiError a b \<Rightarrow> (Inr (), w))"

definition join_errors :: "error option \<Rightarrow> string option \<Rightarrow> error option" where
  "join_errors err afterErr =
     (case afterErr of
        None \<Rightarrow> err
      | Some a \<Rightarrow> (case err of None \<Rightarrow> Some (PlainError a)
                   | Some e \<Rightarrow> Some (MultiError e (PlainError a))))"

definition exit_on_error :: "error option \<Rightarrow> world \<Rightarrow> halt \<times> world" where
  "exit_on_error err w =
     (case err of
        None \<Rightarrow> (Exit 0, w)
      | Some e \<Rightarrow> (Exit 1, w\<lparr>stderr := stderr w @ [Plain (error_text e)]\<rparr>))"

datatype pc = AtBefore | AtAction | AtAfter "error option" | Ended halt

definition main_step :: "collab \<Rightarrow> invocation \<Rightarrow> pc \<times> world \<Rightarrow> pc \<times> world" where
  "main_step k c s =
     (case s of
        (AtBefore, w) \<Rightarrow>
          (case Before c w of
             (Inl h, w') \<Rightarrow> (Ended h, w')
           | (Inr (Some e), w') \<Rightarrow> (AtAfter (Some (PlainError e)), w')
           | (Inr None, w') \<Rightarrow> (AtAction, w'))
      | (AtAction, w) \<Rightarrow>
          (case Action (cmd c) k c w of
             (Inl h, w') \<Rightarrow> (Ended h, w')
           | (Inr None, w') \<Rightarrow> (AtAfter None, w')
           | (Inr (Some e), w') \<Rightarrow>
               (case HandleExitCoder e w' of
                  (Inl h, w'') \<Rightarrow> (Ended h, w'')
                | (Inr u, w'') \<Rightarrow> (AtAfter (Some e), w'')))
      | (AtAfter err, w) \<Rightarrow>
          (case After w of
             (afterErr, w') \<Rightarrow>
               (case exit_on_error (join_errors err afterErr) w' of
                  (h, w'') \<Rightarrow> (Ended h, w'')))
      | (Ended h, w) \<Rightarrow> (Ended h, w))"

definition sighup_step :: "pc \<times> world \<Rightarrow> pc \<times> world" where
  "sighup_step s =
     (case s of
        (Ended h, w) \<Rightarrow> (Ended h, w)
      | (p, w) \<Rightarrow>
          (if watcher w
           then (case reload w of (Inl h, w') \<Rightarrow> (Ended h, w') | (Inr u, w') \<Rightarrow> (p, w'))
           else (Ended Killed, w)))"

datatype event = Main | Sighup

fun exec :: "collab \<Rightarrow> invocation \<Rightarrow> event list \<Rightarrow> pc \<times> world \<Rightarrow> pc \<times> world" where
  "exec k c [] s = s"
| "exec k c (e # es) s =
     exec k c es (case e of Main \<Rightarrow> main_step k c s | Sighup \<Rightarrow> sighup_step s)"

text \<open>The run without signals: the three phases of the main goroutine.\<close>

definition run :: "collab \<Rightarrow> invocation \<Rightarrow> world \<Rightarrow> pc \<times> world" where
  "run k c w = exec k c [Main, Main, Main] (AtBefore, w)"

text \<open>The world at process start: nothing configured, the logger with the defaults
  of logrus (output to standard error, threshold info, text format, no hook), no
  descriptor but the three standard ones.\<close>

definition StandardLogger :: logger where
  "StandardLogger = \<lparr>Level = InfoLevel, Out = Stderr, Hooks = [], Formatter = TextFormatter\<rparr>"

definition start :: "(string option \<Rightarrow> string + settings) \<Rightarrow> (string \<rightharpoonup> line list) \<Rightarrow>
    string set \<Rightarrow> string set \<Rightarrow> bool \<Rightarrow> world" where
  "start cf fs un cl sl =
     \<lparr>conf_files = cf, config_file = None, config = Map.empty, files = fs,
      unopenable = un, close_faulty = cl, syslog_up = sl,
      fdtab = Map.empty, next_fd = 3,
      std = StandardLogger,
      stderr = [], stdout = [], syslog = [],
      logFile = None, watcher = False, opens = [], calls = []\<rparr>"

subsection \<open>Notions used to state the properties\<close>

text \<open>What \<^verbatim>\<open>ReadInConfig\<close> is going to find for this command line, and the world
  right after a successful read of the settings \<open>cfg\<close>.\<close>

definition loaded :: "invocation \<Rightarrow> world \<Rightarrow> string + settings" where
  "loaded c w =
     conf_files w (if 0 < length (GlobalString_conf c) then Some (GlobalString_conf c)
                   else config_file w)"

definition prepared :: "invocation \<Rightarrow> settings \<Rightarrow> world \<Rightarrow> world" where
  "prepared c cfg w =
     (if 0 < length (GlobalString_conf c) then SetConfigFile (GlobalString_conf c) w else w)
       \<lparr>config := cfg\<rparr>"

text \<open>The world in which the validation gate runs: after the threshold, the target
  and the format have been set.\<close>

definition configured :: "invocation \<Rightarrow> settings \<Rightarrow> world \<Rightarrow> string option \<times> world" where
  "configured c cfg w =
     (case select_target (select_level c (prepared c cfg w)) of
        (err, w') \<Rightarrow> (err, case err of None \<Rightarrow> select_format w' | Some e \<Rightarrow> w'))"

text \<open>The places an enabled entry is delivered to: the logger's output, then one
  place per hook. \<open>content\<close> is what has been written to a place so far.\<close>

datatype sink = ToStderr | ToStdout | ToFile string | ToSyslog

definition destinations :: "world \<Rightarrow> sink list" where
  "destinations w =
     (case Out (std w) of
        Stderr \<Rightarrow> [ToStderr]
      | Stdout \<Rightarrow> [ToStdout]
      | FileW fd \<Rightarrow> (case fdtab w fd of None \<Rightarrow> [] | Some d \<Rightarrow> [ToFile (fpath d)]))
     @ map (\<lambda>h. case h of SyslogHook \<Rightarrow> ToSyslog) (Hooks (std w))"

definition content :: "world \<Rightarrow> sink \<Rightarrow> line list" where
  "content w s =
     (case s of
        ToStderr \<Rightarrow> stderr w
      | ToStdout \<Rightarrow> stdout w
      | ToFile p \<Rightarrow> (case files w p of None \<Rightarrow> [] | Some xs \<Rightarrow> xs)
      | ToSyslog \<Rightarrow> syslog w)"

text \<open>The logger writes to a standard stream, or to an open descriptor in append
  mode.\<close>

definition out_ok :: "world \<Rightarrow> bool" where
  "out_ok w =
     (case Out (std w) of
        Stderr \<Rightarrow> True
      | Stdout \<Rightarrow> True
      | FileW fd \<Rightarrow> (case fdtab w fd of None \<Rightarrow> False | Some d \<Rightarrow> fappend d))"

text \<open>Logging to the file \<open>p\<close> is in place: \<open>logFile\<close> is an open descriptor on
  \<open>p\<close> in append mode, the logger writes to it, and \<open>p\<close> is the configured path.\<close>

definition file_logging :: "string \<Rightarrow> world \<Rightarrow> bool" where
  "file_logging p w =
     (case logFile w of
        None \<Rightarrow> False
      | Some fd \<Rightarrow>
          Out (std w) = FileW fd \<and> GetString (config w) ''log_file'' = p \<and>
          (case fdtab w fd of None \<Rightarrow> False | Some d \<Rightarrow> fpath d = p \<and> fappend d))"

text \<open>What happens to the log after start-up, seen from the file: SIGHUP signals
  taken by the goroutine, and entries logged anywhere in the process. \<open>written\<close>
  lists the entries these write under the threshold \<open>t\<close>, in order.\<close>

datatype activity = Signal | Record level string

fun activities :: "activity list \<Rightarrow> world \<Rightarrow> (halt + unit) \<times> world" where
  "activities [] w = (Inr (), w)"
| "activities (Signal # as) w =
     (case reload w of (Inl h, w') \<Rightarrow> (Inl h, w') | (Inr u, w') \<Rightarrow> activities as w')"
| "activities (Record l m # as) w = activities as (log_at l m w)"

fun written :: "level \<Rightarrow> activity list \<Rightarrow> line list" where
  "written t [] = []"
| "written t (Signal # as) =
     (if level_rank InfoLevel \<le> level_rank t
      then Entry InfoLevel ''Log file successfully reloaded'' # written t as
      else written t as)"
| "written t (Record l m # as) =
     (if level_rank l \<le> level_rank t then Entry l m # written t as else written t as)"

text \<open>The world after the statement \<^verbatim>\<open>_ = logFile.Close()\<close> of the goroutine.\<close>

definition closed_logFile :: "world \<Rightarrow> world" where
  "closed_logFile w = (case logFile w of None \<Rightarrow> w | Some fd \<Rightarrow> snd (os_Close fd w))"

text \<open>No command can start from this state any more: start-up is still ahead and
  the settings it is going to read lack a key, or the run is already past the
  command.\<close>

definition gate_shut :: "invocation \<Rightarrow> pc \<times> world \<Rightarrow> bool" where
  "gate_shut c s =
     (case fst s of
        AtBefore \<Rightarrow> (case loaded c (snd s) of
                      Inl e \<Rightarrow> False
                    | Inr cfg \<Rightarrow> cfg ''enc_key'' = None \<or> cfg ''auth_key'' = None)
      | AtAction \<Rightarrow> False
      | AtAfter e \<Rightarrow> True
      | Ended h \<Rightarrow> True)"

text \<open>No log file is held in this state, no goroutine has been started, and when
  start-up is still ahead the settings it is going to read do not ask for a file.\<close>

definition no_handle :: "invocation \<Rightarrow> pc \<times> world \<Rightarrow> bool" where
  "no_handle c s =
     (logFile (snd s) = None \<and> \<not> watcher (snd s) \<and>
      (case fst s of
         AtBefore \<Rightarrow> (case loaded c (snd s) of
                       Inl e \<Rightarrow> True
                     | Inr cfg \<Rightarrow> GetString cfg ''log_target'' \<noteq> ''file'')
       | AtAction \<Rightarrow> True
       | AtAfter e \<Rightarrow> True
       | Ended h \<Rightarrow> True))"

section \<open>Properties\<close>

subsection \<open>Basic facts about the calls\<close>

lemma fold_fire: "fold (fire l) hs w = w\<lparr>syslog := syslog w @ replicate (length hs) l\<rparr>"
proof (induction hs arbitrary: w)
  case Nil
  show ?case by simp
next
  case (Cons h hs)
  have "fire l h w = w\<lparr>syslog := syslog w @ [l]\<rparr>"
    by (cases h) (simp add: fire_def)
  then show ?case
    by (simp add: Cons.IH replicate_app_Cons_same)
qed

lemma write_out_keeps [simp]:
  "std (write_out l w) = std w"
  "logFile (write_out l w) = logFile w"
  "watcher (write_out l w) = watcher w"
  "calls (write_out l w) = calls w"
  "opens (write_out l w) = opens w"
  "config (write_out l w) = config w"
  "conf_files (write_out l w) = conf_files w"
  "config_file (write_out l w) = config_file w"
  "unopenable (write_out l w) = unopenable w"
  "close_faulty (write_out l w) = close_faulty w"
  "syslog_up (write_out l w) = syslog_up w"
  "next_fd (write_out l w) = next_fd w"
  "syslog (write_out l w) = syslog w"
  by (simp_all add: write_out_def os_Write_def Let_def split: writer.splits option.splits)

lemma log_at_keeps [simp]:
  "std (log_at l m w) = std w"
  "logFile (log_at l m w) = logFile w"
  "watcher (log_at l m w) = watcher w"
  "calls (log_at l m w) = calls w"
  "opens (log_at l m w) = opens w"
  "config (log_at l m w) = config w"
  "conf_files (log_at l m w) = conf_files w"
  "config_file (log_at l m w) = config_file w"
  "unopenable (log_at l m w) = unopenable w"
  "close_faulty (log_at l m w) = close_faulty w"
  "syslog_up (log_at l m w) = syslog_up w"
  "next_fd (log_at l m w) = next_fd w"
  by (simp_all add: log_at_def fold_fire)

lemma os_OpenFile_refused:
  "p \<in> unopenable w \<Longrightarrow> os_OpenFile p fl w = (None, w\<lparr>opens := opens w @ [p]\<rparr>)"
  by (simp add: os_OpenFile_def)

lemma os_OpenFile_log_flags:
  "p \<notin> unopenable w \<Longrightarrow>
   os_OpenFile p log_flags w =
     (Some (next_fd w),
      w\<lparr>opens := opens w @ [p],
        files := (files w)(p \<mapsto> (case files w p of None \<Rightarrow> [] | Some xs \<Rightarrow> xs)),
        fdtab := (fdtab w)(next_fd w \<mapsto> \<lparr>fpath = p, fappend = True, fpos = 0\<rparr>),
        next_fd := Suc (next_fd w)\<rparr>)"
  by (simp add: os_OpenFile_def new_descriptor_def log_flags_def split: option.splits)

lemma Before_loaded:
  "loaded c w = Inr cfg \<Longrightarrow>
   Before c w =
     (case select_target (select_level c (prepared c cfg w)) of
        (Some e, w3) \<Rightarrow> (Inr (Some e), w3)
      | (None, w3) \<Rightarrow>
          (case validation_gate (select_format w3) of
             (Inl h, w4) \<Rightarrow> (Inl h, w4)
           | (Inr u, w4) \<Rightarrow> (Inr None, w4)))"
  by (auto simp: Before_def loaded_def prepared_def ReadInConfig_def SetConfigFile_def Let_def)

lemma Before_unloaded:
  "loaded c w = Inl e \<Longrightarrow>
   Before c w = (Inr (Some (''Failed reading config file - '' @ e)),
                 (if 0 < length (GlobalString_conf c) then SetConfigFile (GlobalString_conf c) w else w))"
  by (auto simp: Before_def loaded_def ReadInConfig_def SetConfigFile_def Let_def)

lemma prepared_keeps [simp]:
  "config (prepared c cfg w) = cfg"
  "std (prepared c cfg w) = std w"
  "logFile (prepared c cfg w) = logFile w"
  "watcher (prepared c cfg w) = watcher w"
  "calls (prepared c cfg w) = calls w"
  "opens (prepared c cfg w) = opens w"
  "files (prepared c cfg w) = files w"
  "fdtab (prepared c cfg w) = fdtab w"
  "unopenable (prepared c cfg w) = unopenable w"
  "syslog_up (prepared c cfg w) = syslog_up w"
  "next_fd (prepared c cfg w) = next_fd w"
  by (simp_all add: prepared_def SetConfigFile_def)

lemma select_level_keeps [simp]:
  "config (select_level c w) = config w"
  "Out (std (select_level c w)) = Out (std w)"
  "Hooks (std (select_level c w)) = Hooks (std w)"
  "logFile (select_level c w) = logFile w"
  "watcher (select_level c w) = watcher w"
  "calls (select_level c w) = calls w"
  "opens (select_level c w) = opens w"
  "files (select_level c w) = files w"
  "fdtab (select_level c w) = fdtab w"
  "unopenable (select_level c w) = unopenable w"
  "syslog_up (select_level c w) = syslog_up w"
  "next_fd (select_level c w) = next_fd w"
  by (simp_all add: select_level_def SetLevel_def Let_def)

lemma Level_select_level:
  "Level (std (select_level c w)) =
     (if debug c then DebugLevel
      else case config w ''log_level'' of
             None \<Rightarrow> WarnLevel
           | Some s \<Rightarrow>
               if s = ''error'' then ErrorLevel
               else if s = ''warn'' then WarnLevel
               else if s = ''info'' then InfoLevel
               else if s = ''debug'' then DebugLevel
               else WarnLevel)"
  by (simp add: select_level_def SetLevel_def GetString_def Let_def split: option.splits)

lemma Level_select_target [simp]: "Level (std (snd (select_target w))) = Level (std w)"
  by (simp add: select_target_def Let_def SetOutput_def AddHook_def os_OpenFile_def new_descriptor_def
      split: option.splits prod.splits)

lemma Level_select_format [simp]: "Level (std (select_format w)) = Level (std w)"
  by (simp add: select_format_def SetFormatter_def)

lemma Level_validation_gate [simp]: "Level (std (snd (validation_gate w))) = Level (std w)"
  by (simp add: validation_gate_def log_Fatal_def)

lemma Level_Before:
  assumes "loaded c w = Inr cfg"
  shows "Level (std (snd (Before c w))) = Level (std (select_level c (prepared c cfg w)))"
proof -
  obtain e w3 where t: "select_target (select_level c (prepared c cfg w)) = (e, w3)"
    by (cases "select_target (select_level c (prepared c cfg w))")
  have l3: "Level (std w3) = Level (std (select_level c (prepared c cfg w)))"
    using Level_select_target [of "select_level c (prepared c cfg w)"] t by simp
  obtain r w4 where g: "validation_gate (select_format w3) = (r, w4)"
    by (cases "validation_gate (select_format w3)")
  have l4: "Level (std w4) = Level (std w3)"
    using Level_validation_gate [of "select_format w3"] g by simp
  show ?thesis
    using assms t g l3 l4 by (simp add: Before_loaded split: option.splits sum.splits)
qed

subsection \<open>Severity threshold\<close>

text \<open>
  C4. Once the settings have been read, the threshold that \<^verbatim>\<open>Before\<close> leaves in
  the logger, whatever happens later in it, is: debug when \<^verbatim>\<open>--debug\<close> was
  given, whatever \<^verbatim>\<open>log_level\<close> says; otherwise error, warn, info or debug for
  exactly these four strings compared byte by byte, and warn when \<^verbatim>\<open>log_level\<close>
  is absent or is any other string.
\<close>

theorem threshold_selection:
  assumes "loaded c w = Inr cfg"
  shows "Level (std (snd (Before c w))) =
     (if debug c then DebugLevel
      else case cfg ''log_level'' of
             None \<Rightarrow> WarnLevel
           | Some s \<Rightarrow>
               if s = ''error'' then ErrorLevel
               else if s = ''warn'' then WarnLevel
               else if s = ''info'' then InfoLevel
               else if s = ''debug'' then DebugLevel
               else WarnLevel)"
  using assms by (simp add: Level_Before Level_select_level)

theorem threshold_selection_witness:
  "loaded \<lparr>conf = None, debug = False, cmd = Status, uid = Some ''alice''\<rparr>
      (start (\<lambda>p. Inr [''log_level'' \<mapsto> ''ERROR'', ''enc_key'' \<mapsto> ''x'', ''auth_key'' \<mapsto> ''y''])
         Map.empty {} {} True)
     = Inr [''log_level'' \<mapsto> ''ERROR'', ''enc_key'' \<mapsto> ''x'', ''auth_key'' \<mapsto> ''y'']
   \<and> Level (std (snd (Before \<lparr>conf = None, debug = False, cmd = Status, uid = Some ''alice''\<rparr>
      (start (\<lambda>p. Inr [''log_level'' \<mapsto> ''ERROR'', ''enc_key'' \<mapsto> ''x'', ''auth_key'' \<mapsto> ''y''])
         Map.empty {} {} True)))) = WarnLevel"
proof -
  have h: "loaded \<lparr>conf = None, debug = False, cmd = Status, uid = Some ''alice''\<rparr>
      (start (\<lambda>p. Inr [''log_level'' \<mapsto> ''ERROR'', ''enc_key'' \<mapsto> ''x'', ''auth_key'' \<mapsto> ''y''])
         Map.empty {} {} True)
     = Inr [''log_level'' \<mapsto> ''ERROR'', ''enc_key'' \<mapsto> ''x'', ''auth_key'' \<mapsto> ''y'']"
    by (simp add: loaded_def start_def GlobalString_conf_def)
  show ?thesis
    using h threshold_selection [OF h] by simp
qed

subsection \<open>Validation gate\<close>

text \<open>
  C9, as amended. The gate asks whether \<^verbatim>\<open>enc_key\<close> and \<^verbatim>\<open>auth_key\<close> are
  set, and nothing about their values: it lets the run continue, leaving the world as
  it is, exactly when both keys are present, and otherwise logs at fatal level and
  ends the process with status 1. A key that is present with the empty string as its
  value counts as present.
\<close>

theorem gate_checks_presence:
  "validation_gate w =
     (if config w ''enc_key'' \<noteq> None \<and> config w ''auth_key'' \<noteq> None then (Inr (), w)
      else (Inl (Exit 1),
            log_at FatalLevel ''Please ensure authentication and encryption keys are set'' w))"
  by (simp add: validation_gate_def IsSet_def log_Fatal_def split: option.splits)

theorem gate_checks_presence_witness:
  "fst (validation_gate
     ((start (\<lambda>p. Inl ''none'') Map.empty {} {} True)
        \<lparr>config := [''enc_key'' \<mapsto> [], ''auth_key'' \<mapsto> ''y'']\<rparr>)) = Inr ()
   \<and> fst (validation_gate
     ((start (\<lambda>p. Inl ''none'') Map.empty {} {} True)
        \<lparr>config := [''enc_key'' \<mapsto> ''x'']\<rparr>)) = Inl (Exit 1)"
  using gate_checks_presence [of "(start (\<lambda>p. Inl ''none'') Map.empty {} {} True)
        \<lparr>config := [''enc_key'' \<mapsto> [], ''auth_key'' \<mapsto> ''y'']\<rparr>"]
    gate_checks_presence [of "(start (\<lambda>p. Inl ''none'') Map.empty {} {} True)
        \<lparr>config := [''enc_key'' \<mapsto> ''x'']\<rparr>"]
  by simp

text \<open>
  C9 as stated fails: with \<^verbatim>\<open>enc_key\<close> present and empty, and \<^verbatim>\<open>auth_key\<close>
  present, \<^verbatim>\<open>Before\<close> returns \<^verbatim>\<open>nil\<close>, so the configuration passes the gate.
\<close>

theorem gate_empty_value_counterexample:
  "GetString [''enc_key'' \<mapsto> [], ''auth_key'' \<mapsto> ''y''] ''enc_key'' = [] \<and>
   fst (Before \<lparr>conf = None, debug = False, cmd = Status, uid = Some ''alice''\<rparr>
         (start (\<lambda>p. Inr [''enc_key'' \<mapsto> [], ''auth_key'' \<mapsto> ''y'']) Map.empty {} {} True))
     = Inr None"
  by (simp add: Before_def start_def GlobalString_conf_def ReadInConfig_def select_level_def
      select_target_def select_format_def validation_gate_def GetString_def IsSet_def
      SetLevel_def SetOutput_def Let_def)

subsection \<open>Required uid\<close>

lemma String_uid_empty: "uid c = None \<or> uid c = Some [] \<Longrightarrow> String_uid c = []"
  by (auto simp: String_uid_def)

text \<open>
  C2. For \<^verbatim>\<open>resetpw\<close>, \<^verbatim>\<open>verify-email\<close> and \<^verbatim>\<open>status\<close>, when the
  \<^verbatim>\<open>uid\<close> flag is absent or empty the action returns the exit error
  "Please provide a uid" with code 1 and leaves the world as it was, so no
  collaborator has been invoked; the dispatcher then prints the message and ends the
  process with status 1.
\<close>

theorem missing_uid_rejected:
  assumes "cmd c = Resetpw \<or> cmd c = Verify_email \<or> cmd c = Status"
    and "uid c = None \<or> uid c = Some []"
  shows "Action (cmd c) k c w = (Inr (Some (ExitError ''Please provide a uid'' 1)), w) \<and>
         main_step k c (AtAction, w) =
           (Ended (Exit 1), w\<lparr>stderr := stderr w @ [Plain ''Please provide a uid'']\<rparr>) \<and>
         calls (snd (main_step k c (AtAction, w))) = calls w"
proof -
  have u: "String_uid c = []" using assms(2) by (rule String_uid_empty)
  have a: "Action (cmd c) k c w = (Inr (Some (ExitError ''Please provide a uid'' 1)), w)"
    using assms(1) u
    by (auto simp: resetpw_Action_def verify_email_Action_def status_Action_def)
  then show ?thesis
    by (simp add: main_step_def HandleExitCoder_def)
qed

theorem missing_uid_rejected_witness:
  "main_step \<lparr>server_Run = None, tools_SendResetPasswordEmail = (\<lambda>u. None),
               tools_SendVerifyEmail = (\<lambda>u. None), tools_Status = (\<lambda>u. None)\<rparr>
     \<lparr>conf = None, debug = False, cmd = Resetpw, uid = None\<rparr>
     (AtAction, start (\<lambda>p. Inl ''none'') Map.empty {} {} True)
   = (Ended (Exit 1),
      (start (\<lambda>p. Inl ''none'') Map.empty {} {} True)\<lparr>stderr := [Plain ''Please provide a uid'']\<rparr>)"
  using missing_uid_rejected [of "\<lparr>conf = None, debug = False, cmd = Resetpw, uid = None\<rparr>"
      "\<lparr>server_Run = None, tools_SendResetPasswordEmail = (\<lambda>u. None),
               tools_SendVerifyEmail = (\<lambda>u. None), tools_Status = (\<lambda>u. None)\<rparr>"
      "start (\<lambda>p. Inl ''none'') Map.empty {} {} True"]
  by (simp add: start_def)

subsection \<open>File target without a path\<close>

lemma GetString_empty: "cfg k = None \<or> cfg k = Some [] \<Longrightarrow> GetString cfg k = []"
  by (auto simp: GetString_def)

text \<open>
  C5, as amended. With \<^verbatim>\<open>log_target\<close> equal to \<^verbatim>\<open>file\<close> and \<^verbatim>\<open>log_file\<close>
  absent or empty, \<^verbatim>\<open>Before\<close> returns the error "Please specify a log file";
  \<^verbatim>\<open>os.OpenFile\<close> has not been called, no file has been created, no descriptor
  opened, and \<open>logFile\<close> and the goroutine are as before.
\<close>

theorem missing_log_file:
  assumes "loaded c w = Inr cfg"
    and "GetString cfg ''log_target'' = ''file''"
    and "cfg ''log_file'' = None \<or> cfg ''log_file'' = Some []"
  shows "fst (Before c w) = Inr (Some ''Please specify a log file'') \<and>
         files (snd (Before c w)) = files w \<and>
         opens (snd (Before c w)) = opens w \<and>
         fdtab (snd (Before c w)) = fdtab w \<and>
         logFile (snd (Before c w)) = logFile w \<and>
         watcher (snd (Before c w)) = watcher w"
proof -
  have "select_target (select_level c (prepared c cfg w)) =
          (Some ''Please specify a log file'', select_level c (prepared c cfg w))"
    using assms(2) GetString_empty [of cfg "''log_file''", OF assms(3)]
    by (simp add: select_target_def)
  then show ?thesis
    using assms(1) by (simp add: Before_loaded)
qed

theorem missing_log_file_witness:
  "fst (Before \<lparr>conf = None, debug = False, cmd = Server, uid = None\<rparr>
         (start (\<lambda>p. Inr [''log_target'' \<mapsto> ''file'', ''enc_key'' \<mapsto> ''x'', ''auth_key'' \<mapsto> ''y''])
            Map.empty {} {} True))
     = Inr (Some ''Please specify a log file'') \<and>
   opens (snd (Before \<lparr>conf = None, debug = False, cmd = Server, uid = None\<rparr>
         (start (\<lambda>p. Inr [''log_target'' \<mapsto> ''file'', ''enc_key'' \<mapsto> ''x'', ''auth_key'' \<mapsto> ''y''])
            Map.empty {} {} True))) = []"
proof -
  have h: "loaded \<lparr>conf = None, debug = False, cmd = Server, uid = None\<rparr>
         (start (\<lambda>p. Inr [''log_target'' \<mapsto> ''file'', ''enc_key'' \<mapsto> ''x'', ''auth_key'' \<mapsto> ''y''])
            Map.empty {} {} True)
      = Inr [''log_target'' \<mapsto> ''file'', ''enc_key'' \<mapsto> ''x'', ''auth_key'' \<mapsto> ''y'']"
    by (simp add: loaded_def start_def GlobalString_conf_def)
  show ?thesis
    using missing_log_file [OF h] by (simp add: GetString_def start_def)
qed

text \<open>
  C5 as stated names the error "missing log file path"; the error \<^verbatim>\<open>Before\<close>
  returns carries another text.
\<close>

theorem missing_log_file_counterexample:
  "fst (Before \<lparr>conf = None, debug = False, cmd = Server, uid = None\<rparr>
         (start (\<lambda>p. Inr [''log_target'' \<mapsto> ''file'', ''enc_key'' \<mapsto> ''x'', ''auth_key'' \<mapsto> ''y''])
            Map.empty {} {} True))
     \<noteq> Inr (Some ''missing log file path'')"
  by (simp add: Before_def start_def GlobalString_conf_def ReadInConfig_def select_level_def
      select_target_def GetString_def SetLevel_def Let_def)

subsection \<open>Output target\<close>

lemma hooks_sinks: "map (\<lambda>h. case h of SyslogHook \<Rightarrow> ToSyslog) hs = replicate (length hs) ToSyslog"
  by (induction hs) (auto split: hook.splits)

lemma count_list_replicate: "count_list (replicate n x) y = (if x = y then n else 0)"
  by (induction n) auto

lemma destinations_write_out [simp]: "destinations (write_out l w) = destinations w"
  by (auto simp: destinations_def write_out_def os_Write_def Let_def
      split: writer.splits option.splits)

lemma destinations_syslog_upd [simp]: "destinations (w\<lparr>syslog := x\<rparr>) = destinations w"
  by (simp add: destinations_def split: writer.splits)

lemma destinations_log_at [simp]: "destinations (log_at l m w) = destinations w"
  by (simp add: log_at_def fold_fire)

lemma destinations_select_format [simp]: "destinations (select_format w) = destinations w"
  by (simp add: select_format_def SetFormatter_def destinations_def split: writer.splits)

lemma destinations_validation_gate [simp]: "destinations (snd (validation_gate w)) = destinations w"
  by (simp add: validation_gate_def log_Fatal_def)

lemma log_at_delivery:
  assumes "out_ok w" and "level_rank l \<le> level_rank (Level (std w))"
  shows "content (log_at l m w) s =
           content w s @ replicate (count_list (destinations w) s) (Entry l m)"
proof (cases "Out (std w)")
  case Stderr
  then show ?thesis using assms(2)
    by (cases s) (simp_all add: log_at_def fold_fire write_out_def content_def destinations_def
        hooks_sinks count_list_replicate)
next
  case Stdout
  then show ?thesis using assms(2)
    by (cases s) (simp_all add: log_at_def fold_fire write_out_def content_def destinations_def
        hooks_sinks count_list_replicate)
next
  case (FileW fd)
  then obtain d where d: "fdtab w fd = Some d" "fappend d"
    using assms(1) by (auto simp: out_ok_def split: option.splits)
  show ?thesis using assms(2) FileW d
    by (cases s) (auto simp: log_at_def fold_fire write_out_def os_Write_def Let_def content_def
        destinations_def hooks_sinks count_list_replicate split: option.splits)
qed

lemma select_target_cases:
  "select_target w =
     (let t = GetString (config w) ''log_target''; p = GetString (config w) ''log_file'' in
      if t = ''stderr'' then (None, SetOutput Stderr w)
      else if t = ''stdout'' then (None, SetOutput Stdout w)
      else if t = ''file'' then
        (if p = [] then (Some ''Please specify a log file'', w)
         else if p \<in> unopenable w
         then (Some ''Failed to open log file'', w\<lparr>opens := opens w @ [p], logFile := None\<rparr>)
         else (None,
               w\<lparr>opens := opens w @ [p],
                 files := (files w)(p \<mapsto> (case files w p of None \<Rightarrow> [] | Some xs \<Rightarrow> xs)),
                 fdtab := (fdtab w)(next_fd w \<mapsto> \<lparr>fpath = p, fappend = True, fpos = 0\<rparr>),
                 next_fd := Suc (next_fd w),
                 logFile := Some (next_fd w),
                 std := (std w)\<lparr>Out := FileW (next_fd w)\<rparr>,
                 watcher := True\<rparr>))
      else if t = ''syslog'' then
        (if syslog_up w then (None, AddHook SyslogHook w)
         else (Some ''Failed to setup syslog output'', w))
      else (None, SetOutput Stderr w))"
  by (simp add: select_target_def Let_def os_OpenFile_refused os_OpenFile_log_flags SetOutput_def)

lemma Before_snd_destinations:
  assumes "loaded c w = Inr cfg"
  shows "destinations (snd (Before c w)) =
           destinations (snd (select_target (select_level c (prepared c cfg w))))"
proof -
  obtain e w3 where t: "select_target (select_level c (prepared c cfg w)) = (e, w3)"
    by (cases "select_target (select_level c (prepared c cfg w))")
  obtain r w4 where g: "validation_gate (select_format w3) = (r, w4)"
    by (cases "validation_gate (select_format w3)")
  have "destinations w4 = destinations w3"
    using destinations_validation_gate [of "select_format w3"] g by simp
  then show ?thesis
    using assms t g by (simp add: Before_loaded split: option.splits sum.splits)
qed

lemma Before_fst:
  assumes "loaded c w = Inr cfg"
    and "fst (select_target (select_level c (prepared c cfg w))) = Some e"
  shows "fst (Before c w) = Inr (Some e)"
  using assms by (auto simp: Before_loaded split: prod.splits option.splits)

lemma std_select_level_default:
  "std w = StandardLogger \<Longrightarrow>
   Out (std (select_level c w)) = Stderr \<and> Hooks (std (select_level c w)) = []"
  by (simp add: StandardLogger_def)

text \<open>
  C3, as amended. Started with the logger of logrus as it comes, and once the settings
  have been read, the places an entry is delivered to after \<^verbatim>\<open>Before\<close> are: for
  \<^verbatim>\<open>stderr\<close> standard error alone; for \<^verbatim>\<open>stdout\<close> standard output alone; for
  \<^verbatim>\<open>file\<close> with a non-empty \<^verbatim>\<open>log_file\<close> that can be opened, that file alone;
  for \<^verbatim>\<open>syslog\<close> with the daemon reachable, standard error and syslog, both,
  since a hook is added and the output is left as it was; for any other value
  standard error alone. Where the file or the syslog set-up fails the output stays
  standard error.
\<close>

theorem target_selection:
  assumes "loaded c w = Inr cfg" and "std w = StandardLogger"
  shows "destinations (snd (Before c w)) =
     (if GetString cfg ''log_target'' = ''stderr'' then [ToStderr]
      else if GetString cfg ''log_target'' = ''stdout'' then [ToStdout]
      else if GetString cfg ''log_target'' = ''file'' then
        (if GetString cfg ''log_file'' = [] \<or> GetString cfg ''log_file'' \<in> unopenable w
         then [ToStderr] else [ToFile (GetString cfg ''log_file'')])
      else if GetString cfg ''log_target'' = ''syslog'' then
        (if syslog_up w then [ToStderr, ToSyslog] else [ToStderr])
      else [ToStderr])"
proof -
  have d: "Out (std (select_level c (prepared c cfg w))) = Stderr"
          "Hooks (std (select_level c (prepared c cfg w))) = []"
    using assms(2) by (simp_all add: StandardLogger_def)
  show ?thesis
    unfolding Before_snd_destinations [OF assms(1)]
    using d by (simp add: select_target_cases Let_def destinations_def SetOutput_def AddHook_def)
qed


theorem target_selection_witness:
  "destinations (snd (Before \<lparr>conf = Some ''/tmp/mokey.yaml'', debug = False, cmd = Server, uid = None\<rparr>
     (start (\<lambda>p. Inr [''log_target'' \<mapsto> ''file'', ''log_file'' \<mapsto> ''/tmp/t.log''])
        Map.empty {} {} True)))
   = [ToFile ''/tmp/t.log'']"
proof -
  have h: "loaded \<lparr>conf = Some ''/tmp/mokey.yaml'', debug = False, cmd = Server, uid = None\<rparr>
     (start (\<lambda>p. Inr [''log_target'' \<mapsto> ''file'', ''log_file'' \<mapsto> ''/tmp/t.log''])
        Map.empty {} {} True)
     = Inr [''log_target'' \<mapsto> ''file'', ''log_file'' \<mapsto> ''/tmp/t.log'']"
    by (simp add: loaded_def start_def)
  have s: "std (start (\<lambda>p. Inr [''log_target'' \<mapsto> ''file'', ''log_file'' \<mapsto> ''/tmp/t.log''])
        Map.empty {} {} True) = StandardLogger"
    by (simp add: start_def)
  show ?thesis
    using target_selection [OF h s] by (simp add: GetString_def start_def)
qed

text \<open>
  C3 as stated fails for \<^verbatim>\<open>syslog\<close>: two sinks are selected, not one, and an
  entry logged afterwards is written to standard error and to syslog.
\<close>

theorem target_syslog_counterexample:
  "destinations (snd (Before \<lparr>conf = None, debug = False, cmd = Server, uid = None\<rparr>
     (start (\<lambda>p. Inr [''log_target'' \<mapsto> ''syslog'', ''enc_key'' \<mapsto> ''x'', ''auth_key'' \<mapsto> ''y''])
        Map.empty {} {} True)))
     = [ToStderr, ToSyslog] \<and>
   content (log_at ErrorLevel ''boom''
     (snd (Before \<lparr>conf = None, debug = False, cmd = Server, uid = None\<rparr>
       (start (\<lambda>p. Inr [''log_target'' \<mapsto> ''syslog'', ''enc_key'' \<mapsto> ''x'', ''auth_key'' \<mapsto> ''y''])
          Map.empty {} {} True)))) ToStderr = [Entry ErrorLevel ''boom''] \<and>
   content (log_at ErrorLevel ''boom''
     (snd (Before \<lparr>conf = None, debug = False, cmd = Server, uid = None\<rparr>
       (start (\<lambda>p. Inr [''log_target'' \<mapsto> ''syslog'', ''enc_key'' \<mapsto> ''x'', ''auth_key'' \<mapsto> ''y''])
          Map.empty {} {} True)))) ToSyslog = [Entry ErrorLevel ''boom'']"
proof -
  have b: "Before \<lparr>conf = None, debug = False, cmd = Server, uid = None\<rparr>
     (start (\<lambda>p. Inr [''log_target'' \<mapsto> ''syslog'', ''enc_key'' \<mapsto> ''x'', ''auth_key'' \<mapsto> ''y''])
        Map.empty {} {} True)
     = (Inr None,
        (start (\<lambda>p. Inr [''log_target'' \<mapsto> ''syslog'', ''enc_key'' \<mapsto> ''x'', ''auth_key'' \<mapsto> ''y''])
           Map.empty {} {} True)
        \<lparr>config := [''log_target'' \<mapsto> ''syslog'', ''enc_key'' \<mapsto> ''x'', ''auth_key'' \<mapsto> ''y''],
          std := \<lparr>Level = WarnLevel, Out = Stderr, Hooks = [SyslogHook], Formatter = TextFormatter\<rparr>\<rparr>)"
    by (simp add: Before_def start_def GlobalString_conf_def ReadInConfig_def select_level_def
        select_target_def select_format_def validation_gate_def GetString_def IsSet_def
        SetLevel_def AddHook_def StandardLogger_def Let_def)
  show ?thesis
    unfolding b
    by (simp add: destinations_def content_def log_at_def write_out_def fire_def start_def)
qed

subsection \<open>Reopening the log file\<close>

lemma os_Close_keeps [simp]:
  "std (snd (os_Close fd w)) = std w"
  "logFile (snd (os_Close fd w)) = logFile w"
  "watcher (snd (os_Close fd w)) = watcher w"
  "calls (snd (os_Close fd w)) = calls w"
  "opens (snd (os_Close fd w)) = opens w"
  "config (snd (os_Close fd w)) = config w"
  "files (snd (os_Close fd w)) = files w"
  "unopenable (snd (os_Close fd w)) = unopenable w"
  "next_fd (snd (os_Close fd w)) = next_fd w"
  "stderr (snd (os_Close fd w)) = stderr w"
  by (simp_all add: os_Close_def split: option.splits)

lemma closed_logFile_keeps [simp]:
  "std (closed_logFile w) = std w"
  "logFile (closed_logFile w) = logFile w"
  "watcher (closed_logFile w) = watcher w"
  "calls (closed_logFile w) = calls w"
  "opens (closed_logFile w) = opens w"
  "config (closed_logFile w) = config w"
  "files (closed_logFile w) = files w"
  "unopenable (closed_logFile w) = unopenable w"
  "next_fd (closed_logFile w) = next_fd w"
  by (simp_all add: closed_logFile_def split: option.splits)

lemma reload_refused:
  "GetString (config w) ''log_file'' \<in> unopenable w \<Longrightarrow>
   reload w = (Inl (Crash ''Failed to reload log file''),
               (closed_logFile w)\<lparr>opens := opens w @ [GetString (config w) ''log_file''],
                                  logFile := None\<rparr>)"
  by (simp add: reload_def closed_logFile_def [symmetric] os_OpenFile_refused)

lemma reload_reopened:
  assumes "GetString (config w) ''log_file'' \<notin> unopenable w"
  shows "fst (reload w) = Inr () \<and> file_logging (GetString (config w) ''log_file'') (snd (reload w))"
  using assms
  by (auto simp: reload_def closed_logFile_def [symmetric] os_OpenFile_log_flags
      log_Info_def file_logging_def SetOutput_def log_at_def fold_fire write_out_def os_Write_def Let_def
      split: option.splits)

lemma exec_Ended [simp]: "exec k c evs (Ended h, w) = (Ended h, w)"
  by (induction evs) (auto simp: main_step_def sighup_step_def split: event.splits)

text \<open>
  C6. When the goroutine cannot reopen the configured log file, its turn ends in a
  panic: delivered to a running process whose goroutine has been started, the
  signal ends the process abnormally, whatever is scheduled next. A turn returns
  normally only when the file has been reopened, and then logging to that file is in
  place: the logger writes to an open descriptor on it.
\<close>

theorem reopen_failure_is_fatal:
  "(GetString (config w) ''log_file'' \<in> unopenable w \<longrightarrow>
      fst (reload w) = Inl (Crash ''Failed to reload log file'') \<and>
      (watcher w \<longrightarrow> (\<forall>h. p \<noteq> Ended h) \<longrightarrow>
         fst (exec k c (Sighup # evs) (p, w)) = Ended (Crash ''Failed to reload log file''))) \<and>
   (GetString (config w) ''log_file'' \<notin> unopenable w \<longrightarrow>
      fst (reload w) = Inr () \<and>
      file_logging (GetString (config w) ''log_file'') (snd (reload w)))"
proof (intro conjI impI)
  assume u: "GetString (config w) ''log_file'' \<in> unopenable w"
  then show "fst (reload w) = Inl (Crash ''Failed to reload log file'')"
    by (simp add: reload_refused)
  assume "watcher w" and "\<forall>h. p \<noteq> Ended h"
  then show "fst (exec k c (Sighup # evs) (p, w)) = Ended (Crash ''Failed to reload log file'')"
    using u by (cases p) (simp_all add: sighup_step_def reload_refused)
next
  assume "GetString (config w) ''log_file'' \<notin> unopenable w"
  then show "fst (reload w) = Inr ()"
    and "file_logging (GetString (config w) ''log_file'') (snd (reload w))"
    by (simp_all add: reload_reopened)
qed


theorem reopen_failure_is_fatal_witness:
  "fst (exec \<lparr>server_Run = None, tools_SendResetPasswordEmail = (\<lambda>u. None),
               tools_SendVerifyEmail = (\<lambda>u. None), tools_Status = (\<lambda>u. None)\<rparr>
          \<lparr>conf = None, debug = False, cmd = Server, uid = None\<rparr>
          [Sighup, Main]
          (AtAction,
           (start (\<lambda>p. Inl ''none'') [''/tmp/t.log'' \<mapsto> []] {''/tmp/t.log''} {} True)
             \<lparr>config := [''log_file'' \<mapsto> ''/tmp/t.log''], watcher := True\<rparr>))
     = Ended (Crash ''Failed to reload log file'') \<and>
   fst (reload
          ((start (\<lambda>p. Inl ''none'') [''/tmp/t.log'' \<mapsto> []] {} {} True)
             \<lparr>config := [''log_file'' \<mapsto> ''/tmp/t.log''], watcher := True\<rparr>)) = Inr ()"
  using reopen_failure_is_fatal [of
      "(start (\<lambda>p. Inl ''none'') [''/tmp/t.log'' \<mapsto> []] {''/tmp/t.log''} {} True)
             \<lparr>config := [''log_file'' \<mapsto> ''/tmp/t.log''], watcher := True\<rparr>"
      AtAction
      "\<lparr>server_Run = None, tools_SendResetPasswordEmail = (\<lambda>u. None),
               tools_SendVerifyEmail = (\<lambda>u. None), tools_Status = (\<lambda>u. None)\<rparr>"
      "\<lparr>conf = None, debug = False, cmd = Server, uid = None\<rparr>"
      "[Main]"]
    reopen_failure_is_fatal [of
      "(start (\<lambda>p. Inl ''none'') [''/tmp/t.log'' \<mapsto> []] {} {} True)
             \<lparr>config := [''log_file'' \<mapsto> ''/tmp/t.log''], watcher := True\<rparr>"]
  by (simp add: GetString_def start_def)

subsection \<open>Start-up without the keys\<close>

lemma select_target_keeps [simp]:
  "calls (snd (select_target w)) = calls w"
  "config (snd (select_target w)) = config w"
  "conf_files (snd (select_target w)) = conf_files w"
  "config_file (snd (select_target w)) = config_file w"
  "unopenable (snd (select_target w)) = unopenable w"
  by (simp_all add: select_target_cases Let_def SetOutput_def AddHook_def)

lemma select_format_keeps [simp]:
  "calls (select_format w) = calls w"
  "config (select_format w) = config w"
  "Out (std (select_format w)) = Out (std w)"
  "Hooks (std (select_format w)) = Hooks (std w)"
  "fdtab (select_format w) = fdtab w"
  "files (select_format w) = files w"
  "logFile (select_format w) = logFile w"
  "watcher (select_format w) = watcher w"
  "unopenable (select_format w) = unopenable w"
  by (simp_all add: select_format_def SetFormatter_def)

lemma validation_gate_cases:
  "validation_gate w =
     (if config w ''enc_key'' = None \<or> config w ''auth_key'' = None
      then (Inl (Exit 1),
            log_at FatalLevel ''Please ensure authentication and encryption keys are set'' w)
      else (Inr (), w))"
  by (simp add: validation_gate_def IsSet_def log_Fatal_def split: option.splits)

lemma calls_validation_gate [simp]: "calls (snd (validation_gate w)) = calls w"
  by (simp add: validation_gate_cases)

lemma Before_configured:
  assumes "loaded c w = Inr cfg"
  shows "Before c w =
     (case configured c cfg w of
        (Some e, w') \<Rightarrow> (Inr (Some e), w')
      | (None, w') \<Rightarrow>
          (case validation_gate w' of
             (Inl h, w4) \<Rightarrow> (Inl h, w4)
           | (Inr u, w4) \<Rightarrow> (Inr None, w4)))"
  using assms by (simp add: Before_loaded configured_def split: prod.splits option.splits)

lemma config_configured [simp]: "config (snd (configured c cfg w)) = cfg"
proof -
  obtain e w' where t: "select_target (select_level c (prepared c cfg w)) = (e, w')"
    by (cases "select_target (select_level c (prepared c cfg w))")
  have "config w' = cfg"
    using select_target_keeps(2) [of "select_level c (prepared c cfg w)"] t by simp
  then show ?thesis
    using t by (simp add: configured_def split: option.splits)
qed

lemma calls_configured [simp]: "calls (snd (configured c cfg w)) = calls w"
proof -
  obtain e w' where t: "select_target (select_level c (prepared c cfg w)) = (e, w')"
    by (cases "select_target (select_level c (prepared c cfg w))")
  have "calls w' = calls w"
    using select_target_keeps(1) [of "select_level c (prepared c cfg w)"] t by simp
  then show ?thesis
    using t by (simp add: configured_def split: option.splits)
qed

lemma Before_without_keys:
  assumes "loaded c w = Inr cfg" and "cfg ''enc_key'' = None \<or> cfg ''auth_key'' = None"
  shows "Before c w =
     (case configured c cfg w of
        (Some e, w') \<Rightarrow> (Inr (Some e), w')
      | (None, w') \<Rightarrow>
          (Inl (Exit 1),
           log_at FatalLevel ''Please ensure authentication and encryption keys are set'' w'))"
proof -
  obtain e w' where t: "configured c cfg w = (e, w')"
    by (cases "configured c cfg w")
  have "config w' = cfg"
    using config_configured [of c cfg w] t by simp
  then show ?thesis
    using assms t by (auto simp: Before_configured validation_gate_cases split: option.splits)
qed

lemma calls_Before [simp]: "calls (snd (Before c w)) = calls w"
proof (cases "loaded c w")
  case (Inl e)
  then show ?thesis by (simp add: Before_unloaded SetConfigFile_def)
next
  case (Inr cfg)
  obtain e w' where t: "configured c cfg w = (e, w')"
    by (cases "configured c cfg w")
  have "calls w' = calls w"
    using calls_configured [of c cfg w] t by simp
  moreover obtain r w4 where g: "validation_gate w' = (r, w4)"
    by (cases "validation_gate w'")
  moreover have "calls w4 = calls w'"
    using calls_validation_gate [of w'] g by simp
  ultimately show ?thesis
    using Inr t by (simp add: Before_configured split: option.splits sum.splits)
qed

lemma After_keeps [simp]: "calls (snd (After w)) = calls w"
  by (simp add: After_def split: option.splits)

lemma exit_on_error_keeps [simp]: "calls (snd (exit_on_error e w)) = calls w"
  by (simp add: exit_on_error_def split: option.splits)

lemma exit_on_error_Some [simp]: "fst (exit_on_error (Some e) w) = Exit 1"
  by (simp add: exit_on_error_def)

lemma join_errors_Some: "\<exists>e'. join_errors (Some e) a = Some e'"
  by (simp add: join_errors_def split: option.splits)

lemma closed_logFile_conf [simp]:
  "conf_files (closed_logFile w) = conf_files w"
  "config_file (closed_logFile w) = config_file w"
  "fdtab (closed_logFile w) = (case logFile w of None \<Rightarrow> fdtab w | Some fd \<Rightarrow> (fdtab w)(fd := None))"
  by (simp_all add: closed_logFile_def os_Close_def fun_upd_idem split: option.splits)

lemma reload_keeps [simp]:
  "calls (snd (reload w)) = calls w"
  "conf_files (snd (reload w)) = conf_files w"
  "config_file (snd (reload w)) = config_file w"
  by (auto simp: reload_def closed_logFile_def [symmetric] os_OpenFile_def new_descriptor_def
      log_Info_def SetOutput_def Let_def os_Close_def split: option.splits prod.splits)

lemma loaded_reload [simp]: "loaded c (snd (reload w)) = loaded c w"
  by (simp add: loaded_def)

lemma main_step_gate_shut:
  assumes "gate_shut c (p, w)"
  shows "gate_shut c (main_step k c (p, w)) \<and> calls (snd (main_step k c (p, w))) = calls w"
proof (cases p)
  case AtBefore
  then obtain cfg where l: "loaded c w = Inr cfg"
    and m: "cfg ''enc_key'' = None \<or> cfg ''auth_key'' = None"
    using assms by (auto simp: gate_shut_def split: sum.splits)
  obtain r w' where b: "Before c w = (r, w')" by (cases "Before c w")
  have "r \<noteq> Inr None"
    using b Before_without_keys [OF l m] by (auto split: prod.splits option.splits)
  moreover have "calls w' = calls w"
    using calls_Before [of c w] b by simp
  ultimately show ?thesis
    using AtBefore b by (auto simp: main_step_def gate_shut_def split: sum.splits option.splits)
next
  case AtAction
  then show ?thesis using assms by (simp add: gate_shut_def)
next
  case (AtAfter e)
  obtain a w' where a: "After w = (a, w')" by (cases "After w")
  have "calls w' = calls w" using After_keeps [of w] a by simp
  moreover obtain h w'' where x: "exit_on_error (join_errors e a) w' = (h, w'')"
    by (cases "exit_on_error (join_errors e a) w'")
  moreover have "calls w'' = calls w'"
    using exit_on_error_keeps [of "join_errors e a" w'] x by simp
  ultimately show ?thesis
    using AtAfter a by (simp add: main_step_def gate_shut_def)
next
  case (Ended h)
  then show ?thesis by (simp add: main_step_def gate_shut_def)
qed

lemma sighup_step_gate_shut:
  assumes "gate_shut c (p, w)"
  shows "gate_shut c (sighup_step (p, w)) \<and> calls (snd (sighup_step (p, w))) = calls w"
proof -
  obtain r w' where r: "reload w = (r, w')" by (cases "reload w")
  have k: "calls w' = calls w" "loaded c w' = loaded c w"
    using reload_keeps(1) [of w] loaded_reload [of c w] r by simp_all
  show ?thesis
    using assms r k
    by (cases p) (auto simp: sighup_step_def gate_shut_def split: sum.splits)
qed

lemma exec_gate_shut:
  "gate_shut c s \<Longrightarrow>
   gate_shut c (exec k c evs s) \<and> calls (snd (exec k c evs s)) = calls (snd s)"
proof (induction evs arbitrary: s)
  case Nil
  then show ?case by simp
next
  case (Cons e evs)
  obtain p w where s: "s = (p, w)" by (cases s)
  show ?case
  proof (cases e)
    case Main
    have "gate_shut c (main_step k c s)" "calls (snd (main_step k c s)) = calls (snd s)"
      using main_step_gate_shut [of c p w k] Cons.prems s by simp_all
    then show ?thesis
      using Cons.IH [of "main_step k c s"] Main by simp
  next
    case Sighup
    have "gate_shut c (sighup_step s)" "calls (snd (sighup_step s)) = calls (snd s)"
      using sighup_step_gate_shut [of c p w] Cons.prems s by simp_all
    then show ?thesis
      using Cons.IH [of "sighup_step s"] Sighup by simp
  qed
qed

lemma run_without_keys:
  assumes "loaded c w = Inr cfg" and "cfg ''enc_key'' = None \<or> cfg ''auth_key'' = None"
  shows "fst (run k c w) = Ended (Exit 1)"
proof -
  obtain e w' where t: "configured c cfg w = (e, w')" by (cases "configured c cfg w")
  show ?thesis
  proof (cases e)
    case None
    then show ?thesis
      using t Before_without_keys [OF assms] by (simp add: run_def main_step_def)
  next
    case (Some m)
    then have b: "Before c w = (Inr (Some m), w')"
      using t Before_without_keys [OF assms] by simp
    obtain a w2 where a: "After w' = (a, w2)" by (cases "After w'")
    obtain e' where j: "join_errors (Some (PlainError m)) a = Some e'"
      using join_errors_Some by blast
    show ?thesis
      using b a j by (simp add: run_def main_step_def exit_on_error_def)
  qed
qed


lemma out_ok_configured:
  assumes "out_ok w" and "fst (configured c cfg w) = None"
  shows "out_ok (snd (configured c cfg w))"
proof -
  have o: "out_ok (select_level c (prepared c cfg w))"
    using assms(1) by (simp add: out_ok_def split: writer.splits)
  have "fst (select_target v) = None \<Longrightarrow> out_ok v \<Longrightarrow> out_ok (select_format (snd (select_target v)))" for v
    by (auto simp: select_target_cases Let_def out_ok_def SetOutput_def AddHook_def
        split: if_splits writer.splits)
  from this [of "select_level c (prepared c cfg w)"] show ?thesis
    using assms(2) o
    by (cases "select_target (select_level c (prepared c cfg w))")
      (simp add: configured_def)
qed

lemma Level_configured:
  "Level (std (snd (configured c cfg w))) = Level (std (select_level c (prepared c cfg w)))"
proof -
  obtain e w' where t: "select_target (select_level c (prepared c cfg w)) = (e, w')"
    by (cases "select_target (select_level c (prepared c cfg w))")
  have "Level (std w') = Level (std (select_level c (prepared c cfg w)))"
    using Level_select_target [of "select_level c (prepared c cfg w)"] t by simp
  then show ?thesis
    using t by (simp add: configured_def split: option.splits)
qed

lemma fatal_enabled: "level_rank FatalLevel \<le> level_rank (Level (std (snd (configured c cfg w))))"
  by (simp add: Level_configured Level_select_level split: option.splits)

lemma log_at_last:
  assumes "out_ok w" and "level_rank l \<le> level_rank (Level (std w))"
    and "s \<in> set (destinations w)"
  shows "\<exists>xs. content (log_at l m w) s = xs @ [Entry l m]"
proof -
  have "count_list (destinations w) s \<noteq> 0"
    using assms(3) by (simp add: count_list_0_iff)
  then obtain n where n: "count_list (destinations w) s = Suc n"
    by (cases "count_list (destinations w) s") auto
  have "content (log_at l m w) s = (content w s @ replicate n (Entry l m)) @ [Entry l m]"
    using log_at_delivery [OF assms(1,2), of m s] n
    by (simp add: replicate_append_same)
  then show ?thesis by blast
qed

text \<open>
  C1. Let the settings that are read lack \<^verbatim>\<open>enc_key\<close> or \<^verbatim>\<open>auth_key\<close>.
  Then \<^verbatim>\<open>Before\<close> never returns \<^verbatim>\<open>nil\<close>; under every schedule of main steps
  and signals the run never reaches a command action and no collaborator is invoked;
  and the run ends with exit status 1. When the logging set-up succeeds, the process
  ends inside \<^verbatim>\<open>Before\<close> at the gate, with status 1, after an entry of fatal level
  has been logged, which is then the last thing written to every destination of the
  logger.
\<close>

theorem missing_keys_abort:
  assumes "loaded c w = Inr cfg" and "cfg ''enc_key'' = None \<or> cfg ''auth_key'' = None"
  shows "fst (Before c w) \<noteq> Inr None \<and>
         fst (exec k c evs (AtBefore, w)) \<noteq> AtAction \<and>
         calls (snd (exec k c evs (AtBefore, w))) = calls w \<and>
         fst (run k c w) = Ended (Exit 1) \<and>
         (fst (configured c cfg w) = None \<longrightarrow>
            Before c w =
              (Inl (Exit 1),
               log_at FatalLevel ''Please ensure authentication and encryption keys are set''
                 (snd (configured c cfg w))) \<and>
            (out_ok w \<longrightarrow>
               (\<forall>s \<in> set (destinations (snd (Before c w))).
                  \<exists>xs. content (snd (Before c w)) s =
                    xs @ [Entry FatalLevel
                            ''Please ensure authentication and encryption keys are set''])))"
proof -
  have b: "Before c w =
     (case configured c cfg w of
        (Some e, w') \<Rightarrow> (Inr (Some e), w')
      | (None, w') \<Rightarrow>
          (Inl (Exit 1),
           log_at FatalLevel ''Please ensure authentication and encryption keys are set'' w'))"
    using assms by (rule Before_without_keys)
  have 1: "fst (Before c w) \<noteq> Inr None"
    unfolding b by (simp split: prod.splits option.splits)
  have g: "gate_shut c (AtBefore, w)"
    using assms by (simp add: gate_shut_def)
  have 2: "fst (exec k c evs (AtBefore, w)) \<noteq> AtAction"
    using exec_gate_shut [OF g, of k evs] by (auto simp: gate_shut_def)
  have 3: "calls (snd (exec k c evs (AtBefore, w))) = calls w"
    using exec_gate_shut [OF g, of k evs] by simp
  have 4: "fst (run k c w) = Ended (Exit 1)"
    using assms by (rule run_without_keys)
  have 5: "Before c w =
              (Inl (Exit 1),
               log_at FatalLevel ''Please ensure authentication and encryption keys are set''
                 (snd (configured c cfg w)))"
    if "fst (configured c cfg w) = None"
    using that unfolding b by (auto split: prod.splits)
  have 6: "\<exists>xs. content (snd (Before c w)) s =
                    xs @ [Entry FatalLevel
                            ''Please ensure authentication and encryption keys are set'']"
    if n: "fst (configured c cfg w) = None" and o: "out_ok w"
      and s: "s \<in> set (destinations (snd (Before c w)))" for s
  proof -
    have "s \<in> set (destinations (snd (configured c cfg w)))"
      using s 5 [OF n] by simp
    then show ?thesis
      using log_at_last [OF out_ok_configured [OF o n] fatal_enabled] 5 [OF n] by simp
  qed
  show ?thesis
    using 1 2 3 4 5 6 by blast
qed


theorem missing_keys_abort_witness:
  "fst (run \<lparr>server_Run = None, tools_SendResetPasswordEmail = (\<lambda>u. None),
              tools_SendVerifyEmail = (\<lambda>u. None), tools_Status = (\<lambda>u. None)\<rparr>
         \<lparr>conf = None, debug = False, cmd = Status, uid = Some ''alice''\<rparr>
         (start (\<lambda>p. Inr [''log_target'' \<mapsto> ''stdout'', ''enc_key'' \<mapsto> ''x''])
            Map.empty {} {} True))
     = Ended (Exit 1) \<and>
   calls (snd (exec \<lparr>server_Run = None, tools_SendResetPasswordEmail = (\<lambda>u. None),
                     tools_SendVerifyEmail = (\<lambda>u. None), tools_Status = (\<lambda>u. None)\<rparr>
                \<lparr>conf = None, debug = False, cmd = Status, uid = Some ''alice''\<rparr>
                [Main, Main, Sighup, Main]
                (AtBefore,
                 start (\<lambda>p. Inr [''log_target'' \<mapsto> ''stdout'', ''enc_key'' \<mapsto> ''x''])
                   Map.empty {} {} True)))
     = [] \<and>
   fst (Before \<lparr>conf = None, debug = False, cmd = Status, uid = Some ''alice''\<rparr>
         (start (\<lambda>p. Inr [''log_target'' \<mapsto> ''stdout'', ''enc_key'' \<mapsto> ''x''])
            Map.empty {} {} True))
     = Inl (Exit 1) \<and>
   (\<exists>xs. content
           (snd (Before \<lparr>conf = None, debug = False, cmd = Status, uid = Some ''alice''\<rparr>
                  (start (\<lambda>p. Inr [''log_target'' \<mapsto> ''stdout'', ''enc_key'' \<mapsto> ''x''])
                     Map.empty {} {} True)))
           ToStdout
         = xs @ [Entry FatalLevel ''Please ensure authentication and encryption keys are set''])"
proof -
  let ?c = "\<lparr>conf = None, debug = False, cmd = Status, uid = Some ''alice''\<rparr>"
  let ?cfg = "[''log_target'' \<mapsto> ''stdout'', ''enc_key'' \<mapsto> ''x'']"
  let ?w = "start (\<lambda>p. Inr ?cfg) Map.empty {} {} True"
  have h1: "loaded ?c ?w = Inr ?cfg"
    by (simp add: loaded_def start_def GlobalString_conf_def)
  have h2: "?cfg ''enc_key'' = None \<or> ?cfg ''auth_key'' = None"
    by simp
  have h3: "fst (configured ?c ?cfg ?w) = None"
    by (simp add: configured_def select_target_cases GetString_def Let_def)
  have h4: "out_ok ?w"
    by (simp add: out_ok_def start_def StandardLogger_def)
  have h5: "ToStdout \<in> set (destinations (snd (Before ?c ?w)))"
    unfolding Before_snd_destinations [OF h1]
    by (simp add: select_target_cases GetString_def Let_def destinations_def SetOutput_def
        start_def StandardLogger_def)
  have c: "calls ?w = []"
    by (simp add: start_def)
  note t = missing_keys_abort [OF h1 h2,
        of "\<lparr>server_Run = None, tools_SendResetPasswordEmail = (\<lambda>u. None),
              tools_SendVerifyEmail = (\<lambda>u. None), tools_Status = (\<lambda>u. None)\<rparr>"
           "[Main, Main, Sighup, Main]"]
  note t3 = t [THEN conjunct2, THEN conjunct2, THEN conjunct1]
  note t4 = t [THEN conjunct2, THEN conjunct2, THEN conjunct2, THEN conjunct1]
  note t5 = t [THEN conjunct2, THEN conjunct2, THEN conjunct2, THEN conjunct2, THEN mp, OF h3]
  have b: "fst (Before ?c ?w) = Inl (Exit 1)"
    by (simp add: t5 [THEN conjunct1])
  note e = t5 [THEN conjunct2, THEN mp, OF h4, THEN bspec, OF h5]
  show ?thesis
    by (intro conjI) (rule t4, rule trans [OF t3 c], rule b, rule e)
qed

subsection \<open>Targets other than a file\<close>

lemma select_target_not_file:
  assumes "GetString (config w) ''log_target'' \<noteq> ''file''"
  shows "logFile (snd (select_target w)) = logFile w \<and>
         watcher (snd (select_target w)) = watcher w \<and>
         opens (snd (select_target w)) = opens w \<and>
         fdtab (snd (select_target w)) = fdtab w \<and>
         files (snd (select_target w)) = files w"
  using assms by (simp add: select_target_cases Let_def SetOutput_def AddHook_def)

lemma validation_gate_keeps [simp]:
  "logFile (snd (validation_gate w)) = logFile w"
  "watcher (snd (validation_gate w)) = watcher w"
  "opens (snd (validation_gate w)) = opens w"
  by (simp_all add: validation_gate_cases)

lemma select_format_opens [simp]: "opens (select_format w) = opens w"
  by (simp add: select_format_def SetFormatter_def)

lemma Before_not_file:
  assumes "loaded c w = Inr cfg" and "GetString cfg ''log_target'' \<noteq> ''file''"
  shows "logFile (snd (Before c w)) = logFile w \<and>
         watcher (snd (Before c w)) = watcher w \<and>
         opens (snd (Before c w)) = opens w"
proof -
  let ?v = "select_level c (prepared c cfg w)"
  obtain e w3 where t: "select_target ?v = (e, w3)"
    by (cases "select_target ?v")
  have "GetString (config ?v) ''log_target'' \<noteq> ''file''"
    using assms(2) by simp
  from select_target_not_file [OF this]
  have k3: "logFile w3 = logFile w" "watcher w3 = watcher w" "opens w3 = opens w"
    using t by simp_all
  obtain r w4 where g: "validation_gate (select_format w3) = (r, w4)"
    by (cases "validation_gate (select_format w3)")
  have k4: "logFile w4 = logFile w3" "watcher w4 = watcher w3" "opens w4 = opens w3"
    using validation_gate_keeps [of "select_format w3"] g by simp_all
  show ?thesis
    using assms(1) t g k3 k4 by (simp add: Before_loaded split: option.splits sum.splits)
qed

lemma Before_unread:
  assumes "loaded c w = Inl e"
  shows "logFile (snd (Before c w)) = logFile w \<and>
         watcher (snd (Before c w)) = watcher w \<and>
         opens (snd (Before c w)) = opens w"
  using assms by (simp add: Before_unloaded SetConfigFile_def)

lemma Action_keeps:
  "logFile (snd (Action x k c w)) = logFile w \<and>
   watcher (snd (Action x k c w)) = watcher w \<and>
   opens (snd (Action x k c w)) = opens w"
  by (cases x)
     (simp_all add: server_Action_def resetpw_Action_def verify_email_Action_def
        status_Action_def log_Fatal_def Let_def split: option.splits)

lemma HandleExitCoder_keeps:
  "logFile (snd (HandleExitCoder e w)) = logFile w \<and>
   watcher (snd (HandleExitCoder e w)) = watcher w \<and>
   opens (snd (HandleExitCoder e w)) = opens w"
  by (cases e) (simp_all add: HandleExitCoder_def)

lemma exit_on_error_keeps2:
  "logFile (snd (exit_on_error e w)) = logFile w \<and>
   watcher (snd (exit_on_error e w)) = watcher w \<and>
   opens (snd (exit_on_error e w)) = opens w"
  by (cases e) (simp_all add: exit_on_error_def)

lemma After_no_handle: "logFile w = None \<Longrightarrow> After w = (None, w)"
  by (simp add: After_def)

lemma main_step_no_handle:
  assumes "no_handle c (p, w)"
  shows "no_handle c (main_step k c (p, w)) \<and> opens (snd (main_step k c (p, w))) = opens w"
proof (cases p)
  case AtBefore
  obtain r w' where b: "Before c w = (r, w')" by (cases "Before c w")
  have "logFile w' = logFile w \<and> watcher w' = watcher w \<and> opens w' = opens w"
  proof (cases "loaded c w")
    case (Inl e)
    then show ?thesis using Before_unread [of c w e] b by simp
  next
    case (Inr cfg)
    then have "GetString cfg ''log_target'' \<noteq> ''file''"
      using assms AtBefore by (simp add: no_handle_def)
    then show ?thesis using Before_not_file [OF Inr] b by simp
  qed
  then show ?thesis
    using assms AtBefore b
    by (auto simp: main_step_def no_handle_def split: sum.splits option.splits)
next
  case AtAction
  obtain r w' where a: "Action (cmd c) k c w = (r, w')" by (cases "Action (cmd c) k c w")
  have k1: "logFile w' = logFile w \<and> watcher w' = watcher w \<and> opens w' = opens w"
    using Action_keeps [of "cmd c" k c w] a by simp
  show ?thesis
  proof (cases r)
    case (Inl h)
    then show ?thesis using assms AtAction a k1 by (simp add: main_step_def no_handle_def)
  next
    case (Inr eo)
    show ?thesis
    proof (cases eo)
      case None
      then show ?thesis using assms AtAction a k1 Inr by (simp add: main_step_def no_handle_def)
    next
      case (Some e)
      obtain r2 w2 where h: "HandleExitCoder e w' = (r2, w2)" by (cases "HandleExitCoder e w'")
      have "logFile w2 = logFile w' \<and> watcher w2 = watcher w' \<and> opens w2 = opens w'"
        using HandleExitCoder_keeps [of e w'] h by simp
      then show ?thesis
        using assms AtAction a k1 Inr Some h
        by (cases r2) (simp_all add: main_step_def no_handle_def)
    qed
  qed
next
  case (AtAfter e)
  have a: "After w = (None, w)"
    using assms by (simp add: no_handle_def After_no_handle)
  obtain h w2 where x: "exit_on_error (join_errors e None) w = (h, w2)"
    by (cases "exit_on_error (join_errors e None) w")
  have "logFile w2 = logFile w \<and> watcher w2 = watcher w \<and> opens w2 = opens w"
    using exit_on_error_keeps2 [of "join_errors e None" w] x by simp
  then show ?thesis
    using assms AtAfter a x by (simp add: main_step_def no_handle_def)
next
  case (Ended h)
  then show ?thesis using assms by (simp add: main_step_def no_handle_def)
qed

lemma sighup_step_no_handle:
  assumes "no_handle c (p, w)"
  shows "no_handle c (sighup_step (p, w)) \<and> opens (snd (sighup_step (p, w))) = opens w"
  using assms by (cases p) (simp_all add: sighup_step_def no_handle_def)

lemma exec_no_handle:
  "no_handle c s \<Longrightarrow>
   no_handle c (exec k c evs s) \<and> opens (snd (exec k c evs s)) = opens (snd s)"
proof (induction evs arbitrary: s)
  case Nil
  then show ?case by simp
next
  case (Cons e evs)
  obtain p w where s: "s = (p, w)" by (cases s)
  show ?case
  proof (cases e)
    case Main
    have "no_handle c (main_step k c s)" "opens (snd (main_step k c s)) = opens (snd s)"
      using main_step_no_handle [of c p w k] Cons.prems s by simp_all
    then show ?thesis
      using Cons.IH [of "main_step k c s"] Main by simp
  next
    case Sighup
    have "no_handle c (sighup_step s)" "opens (snd (sighup_step s)) = opens (snd s)"
      using sighup_step_no_handle [of c p w] Cons.prems s by simp_all
    then show ?thesis
      using Cons.IH [of "sighup_step s"] Sighup by simp
  qed
qed

text \<open>
  C10. Let the settings that are read have a \<^verbatim>\<open>log_target\<close> other than
  \<^verbatim>\<open>file\<close>, in a process that starts with no log file and no goroutine. Then in
  every state the run reaches, under every schedule of main steps and signals,
  \<open>logFile\<close> is \<^verbatim>\<open>nil\<close>, the goroutine has not been started,
  \<^verbatim>\<open>os.OpenFile\<close> has not been called, and \<^verbatim>\<open>After\<close> run there returns
  \<^verbatim>\<open>nil\<close> and leaves the world as it is.
\<close>

theorem no_file_target_no_handle:
  assumes "loaded c w = Inr cfg" and "GetString cfg ''log_target'' \<noteq> ''file''"
    and "logFile w = None" and "\<not> watcher w"
  shows "logFile (snd (exec k c evs (AtBefore, w))) = None \<and>
         \<not> watcher (snd (exec k c evs (AtBefore, w))) \<and>
         opens (snd (exec k c evs (AtBefore, w))) = opens w \<and>
         After (snd (exec k c evs (AtBefore, w))) = (None, snd (exec k c evs (AtBefore, w)))"
proof -
  have "no_handle c (AtBefore, w)"
    using assms by (simp add: no_handle_def)
  from exec_no_handle [OF this, of k evs]
  have n: "no_handle c (exec k c evs (AtBefore, w))"
    and o: "opens (snd (exec k c evs (AtBefore, w))) = opens w"
    by simp_all
  have l: "logFile (snd (exec k c evs (AtBefore, w))) = None"
    and v: "\<not> watcher (snd (exec k c evs (AtBefore, w)))"
    using n by (simp_all add: no_handle_def)
  show ?thesis
    using l v o After_no_handle [OF l] by simp
qed


theorem no_file_target_no_handle_witness:
  "logFile (snd (exec \<lparr>server_Run = None, tools_SendResetPasswordEmail = (\<lambda>u. None),
                       tools_SendVerifyEmail = (\<lambda>u. None), tools_Status = (\<lambda>u. None)\<rparr>
                  \<lparr>conf = None, debug = False, cmd = Status, uid = Some ''alice''\<rparr>
                  [Main, Main, Main]
                  (AtBefore,
                   start (\<lambda>p. Inr [''log_target'' \<mapsto> ''syslog'', ''enc_key'' \<mapsto> ''x'',
                                      ''auth_key'' \<mapsto> ''y''])
                     Map.empty {} {} True)))
     = None \<and>
   opens (snd (exec \<lparr>server_Run = None, tools_SendResetPasswordEmail = (\<lambda>u. None),
                     tools_SendVerifyEmail = (\<lambda>u. None), tools_Status = (\<lambda>u. None)\<rparr>
                \<lparr>conf = None, debug = False, cmd = Status, uid = Some ''alice''\<rparr>
                [Main, Main, Main]
                (AtBefore,
                 start (\<lambda>p. Inr [''log_target'' \<mapsto> ''syslog'', ''enc_key'' \<mapsto> ''x'',
                                    ''auth_key'' \<mapsto> ''y''])
                   Map.empty {} {} True)))
     = []"
proof -
  let ?c = "\<lparr>conf = None, debug = False, cmd = Status, uid = Some ''alice''\<rparr>"
  let ?cfg = "[''log_target'' \<mapsto> ''syslog'', ''enc_key'' \<mapsto> ''x'', ''auth_key'' \<mapsto> ''y'']"
  let ?w = "start (\<lambda>p. Inr ?cfg) Map.empty {} {} True"
  have h1: "loaded ?c ?w = Inr ?cfg"
    by (simp add: loaded_def start_def GlobalString_conf_def)
  have h2: "GetString ?cfg ''log_target'' \<noteq> ''file''"
    by (simp add: GetString_def)
  have h3: "logFile ?w = None" and h4: "\<not> watcher ?w" and o: "opens ?w = []"
    by (simp_all add: start_def)
  note t = no_file_target_no_handle [OF h1 h2 h3 h4,
      of "\<lparr>server_Run = None, tools_SendResetPasswordEmail = (\<lambda>u. None),
            tools_SendVerifyEmail = (\<lambda>u. None), tools_Status = (\<lambda>u. None)\<rparr>"
         "[Main, Main, Main]"]
  show ?thesis
    by (intro conjI)
      (rule t [THEN conjunct1], rule trans [OF t [THEN conjunct2, THEN conjunct2, THEN conjunct1] o])
qed

subsection \<open>Rotation keeps what was written\<close>

lemma file_loggingE:
  assumes "file_logging p w"
  obtains fd d where "logFile w = Some fd" and "Out (std w) = FileW fd"
    and "GetString (config w) ''log_file'' = p" and "fdtab w fd = Some d"
    and "fpath d = p" and "fappend d"
  using assms by (auto simp: file_logging_def split: option.splits)

lemma log_at_file:
  assumes "file_logging p w" and "files w p = Some xs"
  shows "files (log_at l m w) p =
           Some (xs @ (if level_rank l \<le> level_rank (Level (std w)) then [Entry l m] else []))
         \<and> file_logging p (log_at l m w)"
proof (cases "level_rank l \<le> level_rank (Level (std w))")
  case False
  then show ?thesis using assms by (simp add: log_at_def)
next
  case True
  from assms(1) obtain fd d where k: "logFile w = Some fd" "Out (std w) = FileW fd"
    "GetString (config w) ''log_file'' = p" "fdtab w fd = Some d" "fpath d = p" "fappend d"
    by (rule file_loggingE)
  have "log_at l m w =
          w\<lparr>syslog := syslog w @ replicate (length (Hooks (std w))) (Entry l m),
            files := (files w)(p \<mapsto> xs @ [Entry l m]),
            fdtab := (fdtab w)(fd \<mapsto> d\<lparr>fpos := Suc (length xs)\<rparr>)\<rparr>"
    using True k assms(2)
    by (simp add: log_at_def fold_fire write_out_def os_Write_def Let_def)
  then show ?thesis
    using True k by (simp add: file_logging_def)
qed

lemma reload_file:
  assumes "file_logging p w" and "files w p = Some xs" and "p \<notin> unopenable w"
  shows "\<exists>w'. reload w = (Inr (), w') \<and>
           files w' p =
             Some (xs @ (if level_rank InfoLevel \<le> level_rank (Level (std w))
                         then [Entry InfoLevel ''Log file successfully reloaded''] else [])) \<and>
           file_logging p w' \<and> unopenable w' = unopenable w \<and> Level (std w') = Level (std w)"
proof -
  have c: "GetString (config w) ''log_file'' = p"
    using assms(1) by (auto simp: file_logging_def split: option.splits)
  let ?v = "(closed_logFile w)
              \<lparr>opens := opens w @ [p],
                files := (files w)(p \<mapsto> xs),
                fdtab := (fdtab (closed_logFile w))
                           (next_fd w \<mapsto> \<lparr>fpath = p, fappend = True, fpos = 0\<rparr>),
                next_fd := Suc (next_fd w),
                logFile := Some (next_fd w)\<rparr>"
  have r: "reload w = (Inr (), log_Info ''Log file successfully reloaded'' (SetOutput (FileW (next_fd w)) ?v))"
    using assms(2,3) c
    by (simp add: reload_def closed_logFile_def [symmetric] os_OpenFile_log_flags)
  have f: "file_logging p (SetOutput (FileW (next_fd w)) ?v)"
    using c by (simp add: file_logging_def SetOutput_def)
  have x: "files (SetOutput (FileW (next_fd w)) ?v) p = Some xs"
    by (simp add: SetOutput_def)
  have l: "Level (std (SetOutput (FileW (next_fd w)) ?v)) = Level (std w)"
    by (simp add: SetOutput_def)
  have u: "unopenable (SetOutput (FileW (next_fd w)) ?v) = unopenable w"
    by (simp add: SetOutput_def)
  show ?thesis
    using log_at_file [OF f x, of InfoLevel "''Log file successfully reloaded''"] l u
    by (simp add: r log_Info_def)
qed

lemma activities_file:
  assumes "file_logging p w" and "files w p = Some xs" and "p \<notin> unopenable w"
  shows "\<exists>w'. activities as w = (Inr (), w') \<and>
           files w' p = Some (xs @ written (Level (std w)) as) \<and> file_logging p w'"
  using assms
proof (induction as arbitrary: w xs)
  case Nil
  then show ?case by simp
next
  case (Cons a as)
  show ?case
  proof (cases a)
    case Signal
    obtain w1 where r: "reload w = (Inr (), w1)"
      and f1: "files w1 p =
             Some (xs @ (if level_rank InfoLevel \<le> level_rank (Level (std w))
                         then [Entry InfoLevel ''Log file successfully reloaded''] else []))"
      and k1: "file_logging p w1" "unopenable w1 = unopenable w" "Level (std w1) = Level (std w)"
      using reload_file [OF Cons.prems] by blast
    have "p \<notin> unopenable w1" using k1(2) Cons.prems(3) by simp
    from Cons.IH [OF k1(1) f1 this] show ?thesis
      using Signal r k1(3) by auto
  next
    case (Record l m)
    have f1: "files (log_at l m w) p =
           Some (xs @ (if level_rank l \<le> level_rank (Level (std w)) then [Entry l m] else []))"
      and k1: "file_logging p (log_at l m w)"
      using log_at_file [OF Cons.prems(1,2), of l m] by simp_all
    have "p \<notin> unopenable (log_at l m w)" using Cons.prems(3) by simp
    from Cons.IH [OF k1 f1 this] show ?thesis
      using Record by auto
  qed
qed

lemma Before_file_logging:
  assumes "loaded c w = Inr cfg" and "GetString cfg ''log_target'' = ''file''"
    and "fst (Before c w) = Inr None"
  shows "file_logging (GetString cfg ''log_file'') (snd (Before c w)) \<and>
         files (snd (Before c w)) (GetString cfg ''log_file'') =
           Some (case files w (GetString cfg ''log_file'') of None \<Rightarrow> [] | Some xs \<Rightarrow> xs)"
proof -
  let ?v = "select_level c (prepared c cfg w)"
  let ?p = "GetString cfg ''log_file''"
  obtain e w3 where t: "select_target ?v = (e, w3)" by (cases "select_target ?v")
  have e: "e = None"
    using assms(1,3) t by (auto simp: Before_loaded split: option.splits)
  have g: "validation_gate (select_format w3) = (Inr (), select_format w3)"
    using assms(1,3) t e
    by (auto simp: Before_loaded validation_gate_cases split: if_splits)
  have b: "snd (Before c w) = select_format w3"
    using assms(1) t e g by (simp add: Before_loaded)
  have "file_logging ?p w3 \<and> files w3 ?p = Some (case files w ?p of None \<Rightarrow> [] | Some xs \<Rightarrow> xs)"
    using t e assms(2)
    by (auto simp: select_target_cases Let_def file_logging_def split: if_splits)
  then show ?thesis
    unfolding b by (auto simp: file_logging_def split: option.splits)
qed

lemma unopenable_Before: "unopenable (snd (Before c w)) = unopenable w"
proof (cases "loaded c w")
  case (Inl e)
  then show ?thesis by (simp add: Before_unloaded SetConfigFile_def)
next
  case (Inr cfg)
  let ?v = "select_level c (prepared c cfg w)"
  obtain e w3 where t: "select_target ?v = (e, w3)" by (cases "select_target ?v")
  have u3: "unopenable w3 = unopenable w"
    using select_target_keeps(5) [of ?v] t by simp
  obtain r w4 where g: "validation_gate (select_format w3) = (r, w4)"
    by (cases "validation_gate (select_format w3)")
  have "unopenable w4 = unopenable w3"
    using g by (auto simp: validation_gate_cases split: if_splits)
  then show ?thesis
    using Inr t g u3 by (simp add: Before_loaded split: option.splits sum.splits)
qed

text \<open>
  C8. The flags of the reopen do not truncate. With logging to the file \<open>p\<close> in
  place, \<open>p\<close> holding the entries \<open>xs\<close>, and \<open>p\<close> openable, every sequence of
  signals and logged entries runs through without a panic, and afterwards \<open>p\<close>
  holds \<open>xs\<close> followed by exactly the entries written meanwhile, in the order they
  were written: nothing written before a reopen is lost, and everything written after
  it comes after. Logging to \<open>p\<close> is still in place then.
\<close>

theorem rotation_appends:
  assumes "file_logging p w" and "files w p = Some xs" and "p \<notin> unopenable w"
  shows "O_TRUNC \<notin> set log_flags \<and>
         (\<exists>w'. activities as w = (Inr (), w') \<and>
                files w' p = Some (xs @ written (Level (std w)) as) \<and>
                file_logging p w')"
  using activities_file [OF assms] by (simp add: log_flags_def)

theorem rotation_appends_witness:
  "\<exists>w'. activities [Record ErrorLevel ''a'', Signal, Record ErrorLevel ''b'', Record DebugLevel ''c'']
           (snd (Before \<lparr>conf = None, debug = False, cmd = Server, uid = None\<rparr>
                  (start (\<lambda>p. Inr [''log_target'' \<mapsto> ''file'', ''log_file'' \<mapsto> ''/tmp/t.log'',
                                     ''log_level'' \<mapsto> ''info'', ''enc_key'' \<mapsto> ''x'',
                                     ''auth_key'' \<mapsto> ''y''])
                     [''/tmp/t.log'' \<mapsto> [Entry WarnLevel ''old'']] {} {} True)))
         = (Inr (), w') \<and>
        files w' ''/tmp/t.log'' =
          Some [Entry WarnLevel ''old'', Entry ErrorLevel ''a'',
                Entry InfoLevel ''Log file successfully reloaded'', Entry ErrorLevel ''b'']"
proof -
  let ?c = "\<lparr>conf = None, debug = False, cmd = Server, uid = None\<rparr>"
  let ?cfg = "[''log_target'' \<mapsto> ''file'', ''log_file'' \<mapsto> ''/tmp/t.log'',
               ''log_level'' \<mapsto> ''info'', ''enc_key'' \<mapsto> ''x'', ''auth_key'' \<mapsto> ''y'']"
  let ?w = "start (\<lambda>p. Inr ?cfg) [''/tmp/t.log'' \<mapsto> [Entry WarnLevel ''old'']] {} {} True"
  let ?as = "[Record ErrorLevel ''a'', Signal, Record ErrorLevel ''b'', Record DebugLevel ''c'']"
  have h1: "loaded ?c ?w = Inr ?cfg"
    by (simp add: loaded_def start_def GlobalString_conf_def)
  have h2: "GetString ?cfg ''log_target'' = ''file''"
    by (simp add: GetString_def)
  have p: "GetString ?cfg ''log_file'' = ''/tmp/t.log''"
    by (simp add: GetString_def)
  have h3: "fst (Before ?c ?w) = Inr None"
    unfolding Before_loaded [OF h1]
    by (simp add: select_target_cases validation_gate_cases Let_def GetString_def start_def)
  have f: "file_logging ''/tmp/t.log'' (snd (Before ?c ?w))"
    using Before_file_logging [OF h1 h2 h3] p by simp
  have x: "files (snd (Before ?c ?w)) ''/tmp/t.log'' = Some [Entry WarnLevel ''old'']"
    using Before_file_logging [OF h1 h2 h3] p by (simp add: start_def)
  have u: "''/tmp/t.log'' \<notin> unopenable (snd (Before ?c ?w))"
    by (simp add: unopenable_Before start_def)
  have lv: "Level (std (snd (Before ?c ?w))) = InfoLevel"
    by (simp add: Level_Before [OF h1] Level_select_level)
  from rotation_appends [OF f x u, of ?as, THEN conjunct2]
  obtain w' where a: "activities ?as (snd (Before ?c ?w)) = (Inr (), w')"
    and fl: "files w' ''/tmp/t.log'' =
               Some ([Entry WarnLevel ''old''] @ written (Level (std (snd (Before ?c ?w)))) ?as)"
    by blast
  have "files w' ''/tmp/t.log'' =
          Some [Entry WarnLevel ''old'', Entry ErrorLevel ''a'',
                Entry InfoLevel ''Log file successfully reloaded'', Entry ErrorLevel ''b'']"
    using fl unfolding lv by simp
  then show ?thesis
    using a by blast
qed

subsection \<open>The hook after the command\<close>

lemma Action_results:
  "fst (Action x k c w) = Inr None \<or> fst (Action x k c w) = Inl (Exit 1) \<or>
   (\<exists>m. fst (Action x k c w) = Inr (Some (ExitError m 1)))"
  by (cases x)
     (auto simp: server_Action_def resetpw_Action_def verify_email_Action_def
        status_Action_def log_Fatal_def Let_def split: option.splits)

lemma main_step_failure:
  assumes "fst (Action (cmd c) k c w) \<noteq> Inr None"
  shows "fst (main_step k c (AtAction, w)) = Ended (Exit 1)"
proof -
  obtain r w' where a: "Action (cmd c) k c w = (r, w')" by (cases "Action (cmd c) k c w")
  from Action_results [of "cmd c" k c w] assms a
  consider "r = Inl (Exit 1)" | m where "r = Inr (Some (ExitError m 1))"
    by auto
  then show ?thesis
  proof cases
    case 1
    then show ?thesis using a by (simp add: main_step_def)
  next
    case 2
    then show ?thesis using a by (simp add: main_step_def HandleExitCoder_def)
  qed
qed

lemma main_step_success:
  assumes "fst (Action (cmd c) k c w) = Inr None"
  shows "main_step k c (AtAction, w) = (AtAfter None, snd (Action (cmd c) k c w))"
  using assms by (cases "Action (cmd c) k c w") (simp add: main_step_def)

lemma main_step_After:
  "main_step k c (AtAfter None, w) =
     (case logFile w of
        None \<Rightarrow> (Ended (Exit 0), w)
      | Some fd \<Rightarrow>
          (case os_Close fd w of
             (None, w') \<Rightarrow> (Ended (Exit 0), w')
           | (Some e, w') \<Rightarrow> (Ended (Exit 1), w'\<lparr>stderr := stderr w' @ [Plain e]\<rparr>)))"
  by (simp add: main_step_def After_def join_errors_def exit_on_error_def
      split: option.splits prod.splits)

text \<open>
  C7, as amended. When the action of the command returns \<^verbatim>\<open>nil\<close>, \<^verbatim>\<open>After\<close>
  runs next: it closes \<open>logFile\<close> if there is one, and the process ends with status
  0 when there is nothing to close or the close succeeds, and with status 1, the
  close error printed, when the close fails. When the action does not return
  \<^verbatim>\<open>nil\<close>, the process ends with exit status 1, the code of the command's own
  error.
\<close>

theorem hook_after_success:
  "(fst (Action (cmd c) k c w) = Inr None \<longrightarrow>
      exec k c [Main, Main] (AtAction, w) =
        (case logFile (snd (Action (cmd c) k c w)) of
           None \<Rightarrow> (Ended (Exit 0), snd (Action (cmd c) k c w))
         | Some fd \<Rightarrow>
             (case os_Close fd (snd (Action (cmd c) k c w)) of
                (None, w') \<Rightarrow> (Ended (Exit 0), w')
              | (Some e, w') \<Rightarrow> (Ended (Exit 1), w'\<lparr>stderr := stderr w' @ [Plain e]\<rparr>)))) \<and>
   (fst (Action (cmd c) k c w) \<noteq> Inr None \<longrightarrow>
      fst (exec k c (Main # evs) (AtAction, w)) = Ended (Exit 1))"
proof (intro conjI impI)
  assume "fst (Action (cmd c) k c w) = Inr None"
  then show "exec k c [Main, Main] (AtAction, w) =
        (case logFile (snd (Action (cmd c) k c w)) of
           None \<Rightarrow> (Ended (Exit 0), snd (Action (cmd c) k c w))
         | Some fd \<Rightarrow>
             (case os_Close fd (snd (Action (cmd c) k c w)) of
                (None, w') \<Rightarrow> (Ended (Exit 0), w')
              | (Some e, w') \<Rightarrow> (Ended (Exit 1), w'\<lparr>stderr := stderr w' @ [Plain e]\<rparr>)))"
    by (simp add: main_step_success main_step_After)
next
  assume "fst (Action (cmd c) k c w) \<noteq> Inr None"
  from main_step_failure [OF this]
  obtain w' where "main_step k c (AtAction, w) = (Ended (Exit 1), w')"
    by (cases "main_step k c (AtAction, w)") auto
  then show "fst (exec k c (Main # evs) (AtAction, w)) = Ended (Exit 1)"
    by simp
qed

theorem hook_after_success_witness:
  "fst (exec \<lparr>server_Run = None, tools_SendResetPasswordEmail = (\<lambda>u. None),
               tools_SendVerifyEmail = (\<lambda>u. None), tools_Status = (\<lambda>u. None)\<rparr>
          \<lparr>conf = None, debug = False, cmd = Status, uid = Some ''alice''\<rparr>
          [Main, Main]
          (AtAction,
           (start (\<lambda>p. Inl ''none'') [''/tmp/t.log'' \<mapsto> []] {} {''/tmp/t.log''} True)
             \<lparr>logFile := Some 3,
               fdtab := [3 \<mapsto> \<lparr>fpath = ''/tmp/t.log'', fappend = True, fpos = 0\<rparr>]\<rparr>))
     = Ended (Exit 1) \<and>
   fdtab (snd (exec \<lparr>server_Run = None, tools_SendResetPasswordEmail = (\<lambda>u. None),
               tools_SendVerifyEmail = (\<lambda>u. None), tools_Status = (\<lambda>u. None)\<rparr>
          \<lparr>conf = None, debug = False, cmd = Status, uid = Some ''alice''\<rparr>
          [Main, Main]
          (AtAction,
           (start (\<lambda>p. Inl ''none'') [''/tmp/t.log'' \<mapsto> []] {} {''/tmp/t.log''} True)
             \<lparr>logFile := Some 3,
               fdtab := [3 \<mapsto> \<lparr>fpath = ''/tmp/t.log'', fappend = True, fpos = 0\<rparr>]\<rparr>))) 3
     = None \<and>
   fst (exec \<lparr>server_Run = None, tools_SendResetPasswordEmail = (\<lambda>u. None),
               tools_SendVerifyEmail = (\<lambda>u. None), tools_Status = (\<lambda>u. Some ''no such user'')\<rparr>
          \<lparr>conf = None, debug = False, cmd = Status, uid = Some ''alice''\<rparr>
          [Main, Main]
          (AtAction,
           (start (\<lambda>p. Inl ''none'') [''/tmp/t.log'' \<mapsto> []] {} {''/tmp/t.log''} True)
             \<lparr>logFile := Some 3,
               fdtab := [3 \<mapsto> \<lparr>fpath = ''/tmp/t.log'', fappend = True, fpos = 0\<rparr>]\<rparr>))
     = Ended (Exit 1)"
proof -
  let ?k = "\<lparr>server_Run = None, tools_SendResetPasswordEmail = (\<lambda>u. None),
               tools_SendVerifyEmail = (\<lambda>u. None), tools_Status = (\<lambda>u. None)\<rparr>"
  let ?k' = "\<lparr>server_Run = None, tools_SendResetPasswordEmail = (\<lambda>u. None),
               tools_SendVerifyEmail = (\<lambda>u. None), tools_Status = (\<lambda>u. Some ''no such user'')\<rparr>"
  let ?c = "\<lparr>conf = None, debug = False, cmd = Status, uid = Some ''alice''\<rparr>"
  let ?w = "(start (\<lambda>p. Inl ''none'') [''/tmp/t.log'' \<mapsto> []] {} {''/tmp/t.log''} True)
             \<lparr>logFile := Some 3,
               fdtab := [3 \<mapsto> \<lparr>fpath = ''/tmp/t.log'', fappend = True, fpos = 0\<rparr>]\<rparr>"
  have a: "Action (cmd ?c) ?k ?c ?w = (Inr None, ?w\<lparr>calls := [StatusOf ''alice'']\<rparr>)"
    by (simp add: status_Action_def String_uid_def start_def)
  have a': "fst (Action (cmd ?c) ?k' ?c ?w) \<noteq> Inr None"
    by (simp add: status_Action_def String_uid_def)
  have s: "fst (Action (cmd ?c) ?k ?c ?w) = Inr None"
    unfolding a by simp
  note t = hook_after_success [of ?c ?k ?w, THEN conjunct1, THEN mp, OF s]
  note t' = hook_after_success [of ?c ?k' ?w "[Main]", THEN conjunct2, THEN mp, OF a']
  have e: "exec ?k ?c [Main, Main] (AtAction, ?w) =
             (Ended (Exit 1),
              ?w\<lparr>calls := [StatusOf ''alice''], fdtab := Map.empty,
                   stderr := [Plain ''input/output error'']\<rparr>)"
    unfolding t a by (simp add: os_Close_def start_def)
  have p1: "fst (exec ?k ?c [Main, Main] (AtAction, ?w)) = Ended (Exit 1)"
    unfolding e by simp
  have p2: "fdtab (snd (exec ?k ?c [Main, Main] (AtAction, ?w))) 3 = None"
    unfolding e by simp
  show ?thesis
    by (intro conjI) (rule p1, rule p2, rule t')
qed

text \<open>
  C7 as stated fails for a command that ends in an error. Here \<^verbatim>\<open>server\<close> runs
  with a file target and \<^verbatim>\<open>server.Run\<close> returns an error: \<^verbatim>\<open>log.Fatal\<close> ends
  the process with status 1 inside the action, and at the end \<open>logFile\<close> still holds
  descriptor 3, which is still open: the hook has not run.
\<close>

theorem hook_skipped_counterexample:
  "fst (run \<lparr>server_Run = Some ''bind: address already in use'',
              tools_SendResetPasswordEmail = (\<lambda>u. None),
              tools_SendVerifyEmail = (\<lambda>u. None), tools_Status = (\<lambda>u. None)\<rparr>
         \<lparr>conf = None, debug = False, cmd = Server, uid = None\<rparr>
         (start (\<lambda>p. Inr [''log_target'' \<mapsto> ''file'', ''log_file'' \<mapsto> ''/tmp/t.log'',
                            ''enc_key'' \<mapsto> ''x'', ''auth_key'' \<mapsto> ''y''])
            Map.empty {} {} True))
     = Ended (Exit 1) \<and>
   logFile (snd (run \<lparr>server_Run = Some ''bind: address already in use'',
              tools_SendResetPasswordEmail = (\<lambda>u. None),
              tools_SendVerifyEmail = (\<lambda>u. None), tools_Status = (\<lambda>u. None)\<rparr>
         \<lparr>conf = None, debug = False, cmd = Server, uid = None\<rparr>
         (start (\<lambda>p. Inr [''log_target'' \<mapsto> ''file'', ''log_file'' \<mapsto> ''/tmp/t.log'',
                            ''enc_key'' \<mapsto> ''x'', ''auth_key'' \<mapsto> ''y''])
            Map.empty {} {} True)))
     = Some 3 \<and>
   fdtab (snd (run \<lparr>server_Run = Some ''bind: address already in use'',
              tools_SendResetPasswordEmail = (\<lambda>u. None),
              tools_SendVerifyEmail = (\<lambda>u. None), tools_Status = (\<lambda>u. None)\<rparr>
         \<lparr>conf = None, debug = False, cmd = Server, uid = None\<rparr>
         (start (\<lambda>p. Inr [''log_target'' \<mapsto> ''file'', ''log_file'' \<mapsto> ''/tmp/t.log'',
                            ''enc_key'' \<mapsto> ''x'', ''auth_key'' \<mapsto> ''y''])
            Map.empty {} {} True))) 3
     = Some \<lparr>fpath = ''/tmp/t.log'', fappend = True, fpos = 1\<rparr>"
proof -
  let ?k = "\<lparr>server_Run = Some ''bind: address already in use'',
              tools_SendResetPasswordEmail = (\<lambda>u. None),
              tools_SendVerifyEmail = (\<lambda>u. None), tools_Status = (\<lambda>u. None)\<rparr>"
  let ?c = "\<lparr>conf = None, debug = False, cmd = Server, uid = None\<rparr>"
  let ?cfg = "[''log_target'' \<mapsto> ''file'', ''log_file'' \<mapsto> ''/tmp/t.log'',
               ''enc_key'' \<mapsto> ''x'', ''auth_key'' \<mapsto> ''y'']"
  let ?w = "start (\<lambda>p. Inr ?cfg) Map.empty {} {} True"
  let ?w1 = "?w\<lparr>config := ?cfg,
               std := \<lparr>Level = WarnLevel, Out = FileW 3, Hooks = [], Formatter = TextFormatter\<rparr>,
               opens := [''/tmp/t.log''],
               files := [''/tmp/t.log'' \<mapsto> []],
               fdtab := [3 \<mapsto> \<lparr>fpath = ''/tmp/t.log'', fappend = True, fpos = 0\<rparr>],
               next_fd := 4,
               logFile := Some 3,
               watcher := True\<rparr>"
  have h1: "loaded ?c ?w = Inr ?cfg"
    by (simp add: loaded_def start_def GlobalString_conf_def)
  have b: "Before ?c ?w = (Inr None, ?w1)"
    unfolding Before_loaded [OF h1]
    by (simp add: select_target_cases validation_gate_cases select_level_def select_format_def
        SetLevel_def prepared_def GlobalString_conf_def Let_def GetString_def start_def
        StandardLogger_def)
  have a: "server_Action ?k ?c ?w1 =
             (Inl (Exit 1),
              ?w1\<lparr>calls := [RunServer],
                   files := [''/tmp/t.log'' \<mapsto> [Entry FatalLevel ''bind: address already in use'']],
                   fdtab := [3 \<mapsto> \<lparr>fpath = ''/tmp/t.log'', fappend = True, fpos = 1\<rparr>]\<rparr>)"
    by (simp add: server_Action_def log_Fatal_def log_at_def write_out_def os_Write_def Let_def
        start_def)
  show ?thesis
    by (simp add: run_def main_step_def b a)
qed

end
